theory Spec2Isabelle
  imports Main "HOL-Library.Word"
begin

section \<open>Severity levels\<close>

text \<open>
  logger.go declares \<^verbatim>\<open>type LogLevel int8\<close> and five constants by \<^verbatim>\<open>iota\<close>.
  A level is therefore any 8-bit value; comparisons in the source are Go's signed
  comparison on \<^verbatim>\<open>int8\<close>, written \<open><s\<close> here.
\<close>

type_synonym LogLevel = "8 word"

definition LogLevelDebug :: LogLevel where "LogLevelDebug = 0"

definition LogLevelInfo :: LogLevel where "LogLevelInfo = 1"

definition LogLevelWarning :: LogLevel where "LogLevelWarning = 2"

definition LogLevelError :: LogLevel where "LogLevelError = 3"

definition LogLevelFatal :: LogLevel where "LogLevelFatal = 4"

text \<open>\<^verbatim>\<open>func (l LogLevel) String() string\<close>: a switch with a default branch.\<close>

definition LogLevel_String :: "LogLevel \<Rightarrow> string" where
  "LogLevel_String l =
     (if l = LogLevelDebug then ''DEBUG''
      else if l = LogLevelInfo then ''INFO''
      else if l = LogLevelWarning then ''WARNING''
      else if l = LogLevelError then ''ERROR''
      else if l = LogLevelFatal then ''FATAL''
      else ''UNKNOWN'')"

section \<open>The environment: clock, console, files\<close>

text \<open>
  The wall clock as \<^verbatim>\<open>time.Now()\<close> returns it, broken into calendar fields, and the
  layout \<^verbatim>\<open>"2006-01-02 15:04:05"\<close> of \<^verbatim>\<open>Time.Format\<close>: the year zero-padded to four
  digits, every other field to two.
\<close>

record go_Time =
  t_year :: nat
  t_month :: nat
  t_day :: nat
  t_hour :: nat
  t_minute :: nat
  t_second :: nat

definition digit_char :: "nat \<Rightarrow> char" where
  "digit_char d = ''0123456789'' ! (d mod 10)"

fun digits :: "nat \<Rightarrow> string" where
  "digits n = (if n < 10 then [digit_char n] else digits (n div 10) @ [digit_char (n mod 10)])"

declare digits.simps [simp del]

definition appendInt :: "nat \<Rightarrow> nat \<Rightarrow> string" where
  "appendInt x width = replicate (width - length (digits x)) (CHR ''0'') @ digits x"

definition Time_Format :: "go_Time \<Rightarrow> string" where
  "Time_Format t =
     appendInt (t_year t) 4 @ ''-'' @ appendInt (t_month t) 2 @ ''-'' @ appendInt (t_day t) 2
     @ '' '' @ appendInt (t_hour t) 2 @ '':'' @ appendInt (t_minute t) 2 @ '':''
     @ appendInt (t_second t) 2"

text \<open>
  Errors of the operating system calls. Which call fails is the environment's choice:
  the world carries a schedule \<open>faults\<close>, one entry per system call still to come
  (\<open>True\<close>: that call fails; an exhausted schedule means success). A write is all or
  nothing. Every system call made is recorded in \<open>trace\<close>.
\<close>

datatype go_error = ErrOpen | ErrWrite | ErrSync | ErrClose | ErrClosed

datatype os_stream = Stdout | File nat

datatype io_Writer = Direct os_stream | MultiWriter "os_stream list"

datatype syscall = SysOpen string | SysWrite os_stream string | SysSync nat | SysClose nat

record os_File =
  f_name :: string
  f_closed :: bool

text \<open>
  \<^verbatim>\<open>bufio.Writer\<close>: the buffered bytes \<^verbatim>\<open>b.buf[0:b.n]\<close>, the sticky error \<^verbatim>\<open>b.err\<close> and
  the underlying writer \<^verbatim>\<open>b.wr\<close>.
\<close>

record bufio_Writer =
  buf :: string
  err :: "go_error option"
  wr :: io_Writer

text \<open>\<^verbatim>\<open>log.Logger\<close>: its output (always a \<^verbatim>\<open>*bufio.Writer\<close> here, held by address),
  its prefix and its flags.\<close>

record log_Logger =
  out :: nat
  prefix :: string
  flag :: nat

datatype RWMutex = Unlocked | RLocked nat | Locked

text \<open>\<^verbatim>\<open>type LogExtended struct\<close>; the pointers \<^verbatim>\<open>bufWriter\<close> (\<^verbatim>\<open>bufferWriter\<close> in the
  second variant of the source) and \<^verbatim>\<open>logFile\<close> may be nil.\<close>

record LogExtended =
  mu :: RWMutex
  logger :: log_Logger
  bufWriter :: "nat option"
  logLevel :: LogLevel
  logFile :: "nat option"

record world =
  console :: string
  disk :: "string \<Rightarrow> string option"
  files :: "nat \<Rightarrow> os_File"
  next_file :: nat
  writers :: "nat \<Rightarrow> bufio_Writer"
  next_writer :: nat
  faults :: "bool list"
  trace :: "syscall list"
  clock :: go_Time
  lg :: LogExtended

definition env_fails :: "world \<Rightarrow> bool" where
  "env_fails w = (case faults w of [] \<Rightarrow> False | b # bs \<Rightarrow> b)"

definition syscall_done :: "syscall \<Rightarrow> world \<Rightarrow> world" where
  "syscall_done c w = w\<lparr>faults := tl (faults w), trace := trace w @ [c]\<rparr>"

definition contents :: "world \<Rightarrow> string \<Rightarrow> string" where
  "contents w path = (case disk w path of None \<Rightarrow> [] | Some c \<Rightarrow> c)"

text \<open>\<^verbatim>\<open>os.OpenFile(path, O_CREATE|O_WRONLY|O_APPEND, 0666)\<close> (\<^verbatim>\<open>O_RDWR\<close> in the second
  variant; the logger never reads): creates the file when absent, keeps its contents
  otherwise, and returns a fresh open handle whose writes append.\<close>

definition os_OpenFile :: "string \<Rightarrow> world \<Rightarrow> (go_error + nat) \<times> world" where
  "os_OpenFile path w =
     (let w1 = syscall_done (SysOpen path) w in
      if env_fails w then (Inl ErrOpen, w1)
      else (Inr (next_file w1),
            w1\<lparr>disk := (disk w1)(path := Some (contents w1 path)),
               files := (files w1)(next_file w1 := \<lparr>f_name = path, f_closed = False\<rparr>),
               next_file := Suc (next_file w1)\<rparr>))"

definition File_Write :: "nat \<Rightarrow> string \<Rightarrow> world \<Rightarrow> go_error option \<times> world" where
  "File_Write fd p w =
     (if f_closed (files w fd) then (Some ErrClosed, w)
      else let w1 = syscall_done (SysWrite (File fd) p) w in
        if env_fails w then (Some ErrWrite, w1)
        else (None, w1\<lparr>disk := (disk w1)(f_name (files w fd) :=
                                     Some (contents w1 (f_name (files w fd)) @ p))\<rparr>))"

definition Stdout_Write :: "string \<Rightarrow> world \<Rightarrow> go_error option \<times> world" where
  "Stdout_Write p w =
     (let w1 = syscall_done (SysWrite Stdout p) w in
      if env_fails w then (Some ErrWrite, w1)
      else (None, w1\<lparr>console := console w1 @ p\<rparr>))"

definition File_Sync :: "nat \<Rightarrow> world \<Rightarrow> go_error option \<times> world" where
  "File_Sync fd w =
     (if f_closed (files w fd) then (Some ErrClosed, w)
      else (if env_fails w then Some ErrSync else None, syscall_done (SysSync fd) w))"

text \<open>\<^verbatim>\<open>(*os.File).Close\<close>: the handle is closed even when the call reports an error;
  closing a closed handle returns \<^verbatim>\<open>os.ErrClosed\<close> without a system call.\<close>

definition File_Close :: "nat \<Rightarrow> world \<Rightarrow> go_error option \<times> world" where
  "File_Close fd w =
     (if f_closed (files w fd) then (Some ErrClosed, w)
      else (if env_fails w then Some ErrClose else None,
            (syscall_done (SysClose fd) w)\<lparr>files := (files w)(fd := (files w fd)\<lparr>f_closed := True\<rparr>)\<rparr>))"

fun stream_Write :: "os_stream \<Rightarrow> string \<Rightarrow> world \<Rightarrow> go_error option \<times> world" where
  "stream_Write Stdout p w = Stdout_Write p w"
| "stream_Write (File fd) p w = File_Write fd p w"

text \<open>\<^verbatim>\<open>io.MultiWriter\<close>: writes to each writer in order and stops at the first error.\<close>

fun multi_Write :: "os_stream list \<Rightarrow> string \<Rightarrow> world \<Rightarrow> go_error option \<times> world" where
  "multi_Write [] p w = (None, w)"
| "multi_Write (s # ss) p w =
     (case stream_Write s p w of
        (Some e, w1) \<Rightarrow> (Some e, w1)
      | (None, w1) \<Rightarrow> multi_Write ss p w1)"

fun io_Write :: "io_Writer \<Rightarrow> string \<Rightarrow> world \<Rightarrow> go_error option \<times> world" where
  "io_Write (Direct s) p w = stream_Write s p w"
| "io_Write (MultiWriter ss) p w = multi_Write ss p w"

section \<open>Buffered writer and line logger of the standard library\<close>

definition defaultBufSize :: nat where
  "defaultBufSize = 4096"

definition set_writer :: "nat \<Rightarrow> bufio_Writer \<Rightarrow> world \<Rightarrow> world" where
  "set_writer a b w = w\<lparr>writers := (writers w)(a := b)\<rparr>"

definition bufio_NewWriter :: "io_Writer \<Rightarrow> world \<Rightarrow> nat \<times> world" where
  "bufio_NewWriter t w =
     (next_writer w,
      (set_writer (next_writer w) \<lparr>buf = [], err = None, wr = t\<rparr> w)
        \<lparr>next_writer := Suc (next_writer w)\<rparr>)"

text \<open>\<^verbatim>\<open>(*bufio.Writer).Flush\<close>: a sticky error is returned at once; an empty buffer needs
  no write; a failed write keeps the bytes and makes the error sticky.\<close>

definition bufio_Flush :: "nat \<Rightarrow> world \<Rightarrow> go_error option \<times> world" where
  "bufio_Flush a w =
     (let b = writers w a in
      if err b \<noteq> None then (err b, w)
      else if buf b = [] then (None, w)
      else (case io_Write (wr b) (buf b) w of
              (Some e, w1) \<Rightarrow> (Some e, set_writer a (b\<lparr>err := Some e\<rparr>) w1)
            | (None, w1) \<Rightarrow> (None, set_writer a (b\<lparr>buf := []\<rparr>) w1)))"

text \<open>
  \<^verbatim>\<open>(*bufio.Writer).Write\<close>. While the bytes do not fit and no error is pending: an empty
  buffer passes them straight to the underlying writer, a non-empty one is filled up
  and flushed. What is left is copied into the buffer.
\<close>

function bufio_Write :: "nat \<Rightarrow> string \<Rightarrow> world \<Rightarrow> go_error option \<times> world" where
  "bufio_Write a p w =
     (let b = writers w a; avail = defaultBufSize - length (buf b) in
      if length p > avail \<and> err b = None then
        (if buf b = [] then
           (case io_Write (wr b) p w of
              (Some e, w1) \<Rightarrow> (Some e, set_writer a (b\<lparr>err := Some e\<rparr>) w1)
            | (None, w1) \<Rightarrow> (None, w1))
         else
           (case bufio_Flush a (set_writer a (b\<lparr>buf := buf b @ take avail p\<rparr>) w) of
              (Some e, w1) \<Rightarrow> (Some e, w1)
            | (None, w1) \<Rightarrow> bufio_Write a (drop avail p) w1))
      else if err b \<noteq> None then (err b, w)
      else (None, set_writer a (b\<lparr>buf := buf b @ p\<rparr>) w))"
  by pat_completeness auto

termination bufio_Write
proof (relation "measure (\<lambda>(a, p, w). 2 * length p + (if buf (writers w a) = [] then 0 else 1))")
  show "wf (measure (\<lambda>(a, p, w). 2 * length p + (if buf (writers w a) = [] then 0 else 1)))"
    by simp
next
  fix a p w b avail x y x2
  assume b: "b = writers w a"
    and ne: "buf b \<noteq> []"
    and fl: "(x, y) = bufio_Flush a (set_writer a (b\<lparr>buf := buf b @ take avail p\<rparr>) w)"
    and ok: "x = None"
  have "buf (writers y a) = []"
    using fl ok ne
    by (auto simp: bufio_Flush_def Let_def set_writer_def split: if_splits prod.splits option.splits)
  then show "((a, drop avail p, y), (a, p, w))
      \<in> measure (\<lambda>(a, p, w). 2 * length p + (if buf (writers w a) = [] then 0 else 1))"
    using b ne by simp
qed

declare bufio_Write.simps [simp del]

text \<open>
  \<^verbatim>\<open>log.New(w, "", flag)\<close>, \<^verbatim>\<open>(*log.Logger).SetOutput\<close> and \<^verbatim>\<open>(*log.Logger).Println\<close>.
  With the flags the source uses (\<^verbatim>\<open>0\<close> and \<^verbatim>\<open>log.Lmsgprefix\<close>) the header of a line is
  the prefix alone; \<^verbatim>\<open>Println\<close> appends one newline to its operand and drops the
  error of the write.
\<close>

definition Lmsgprefix :: nat where
  "Lmsgprefix = 64"

definition log_New :: "nat \<Rightarrow> string \<Rightarrow> nat \<Rightarrow> log_Logger" where
  "log_New a pre fl = \<lparr>out = a, prefix = pre, flag = fl\<rparr>"

definition log_SetOutput :: "log_Logger \<Rightarrow> nat \<Rightarrow> log_Logger" where
  "log_SetOutput L a = L\<lparr>out := a\<rparr>"

definition newline :: string where
  "newline = [CHR 0x0A]"

definition log_Println :: "log_Logger \<Rightarrow> string \<Rightarrow> world \<Rightarrow> world" where
  "log_Println L s w = snd (bufio_Write (out L) (prefix L @ s @ newline) w)"

section \<open>Message formatting\<close>

text \<open>
  \<^verbatim>\<open>fmt.Sprintf("[%s] [%s] %v", timestamp, lvl.String(), msg)\<close> with three string
  operands is the concatenation below. The rendering of the caller's own operands,
  \<^verbatim>\<open>fmt.Sprint(args...)\<close> and \<^verbatim>\<open>fmt.Sprintf(format, args...)\<close>, belongs to package
  \<^verbatim>\<open>fmt\<close>; the logger is modelled for any such rendering, passed as \<open>Sprint\<close> and
  \<open>Sprintf\<close>.
\<close>

definition bracketed :: "string \<Rightarrow> string \<Rightarrow> string \<Rightarrow> string" where
  "bracketed ts name msg = ''['' @ ts @ ''] ['' @ name @ ''] '' @ msg"

definition formatMessage :: "('v list \<Rightarrow> string) \<Rightarrow> LogLevel \<Rightarrow> 'v list \<Rightarrow> world \<Rightarrow> string" where
  "formatMessage Sprint lvl args w =
     (let timestamp = Time_Format (clock w)
      in bracketed timestamp (LogLevel_String lvl) (Sprint args))"

definition formatMessagef ::
    "(string \<Rightarrow> 'v list \<Rightarrow> string) \<Rightarrow> string \<Rightarrow> LogLevel \<Rightarrow> 'v list \<Rightarrow> world \<Rightarrow> string" where
  "formatMessagef Sprintf format lvl args w =
     (let timestamp = Time_Format (clock w);
          msg = Sprintf format args
      in bracketed timestamp (LogLevel_String lvl) msg)"

text \<open>
  The plain verbs of \<^verbatim>\<open>fmt.Sprintf\<close> on string and integer operands: \<^verbatim>\<open>%s\<close>, \<^verbatim>\<open>%d\<close>,
  \<^verbatim>\<open>%v\<close> and \<^verbatim>\<open>%%\<close>, each operand of the verb's type and every operand used. \<open>None\<close>
  marks a template outside this fragment.
\<close>

datatype go_value = GoString string | GoInt int

definition render_int :: "int \<Rightarrow> string" where
  "render_int i = (if i < 0 then ''-'' else []) @ digits (nat \<bar>i\<bar>)"

fun render_verb :: "char \<Rightarrow> go_value \<Rightarrow> string option" where
  "render_verb c (GoString s) = (if c = CHR ''s'' \<or> c = CHR ''v'' then Some s else None)"
| "render_verb c (GoInt i) = (if c = CHR ''d'' \<or> c = CHR ''v'' then Some (render_int i) else None)"

fun Sprintf_plain :: "string \<Rightarrow> go_value list \<Rightarrow> string option" where
  "Sprintf_plain [] [] = Some []"
| "Sprintf_plain [] (v # vs) = None"
| "Sprintf_plain [c] vs = (if c = CHR ''%'' then None else if vs = [] then Some [c] else None)"
| "Sprintf_plain (c # d # cs) vs =
     (if c \<noteq> CHR ''%'' then map_option ((#) c) (Sprintf_plain (d # cs) vs)
      else if d = CHR ''%'' then map_option ((#) d) (Sprintf_plain cs vs)
      else (case vs of
              [] \<Rightarrow> None
            | v # rest \<Rightarrow>
                (case render_verb d v of
                   None \<Rightarrow> None
                 | Some s \<Rightarrow> map_option ((@) s) (Sprintf_plain cs rest))))"

section \<open>The logger\<close>

text \<open>
  \<^verbatim>\<open>sync.RWMutex\<close> is not reentrant: \<^verbatim>\<open>Lock\<close> on a mutex that is held does not return
  until the holder releases it. The model follows one goroutine, so a \<^verbatim>\<open>Lock\<close> or
  \<^verbatim>\<open>RLock\<close> that cannot be granted never returns (\<open>None\<close>).
\<close>

definition mu_Lock :: "world \<Rightarrow> world option" where
  "mu_Lock w = (if mu (lg w) = Unlocked then Some (w\<lparr>lg := (lg w)\<lparr>mu := Locked\<rparr>\<rparr>) else None)"

text \<open>\<^verbatim>\<open>Unlock\<close> and \<^verbatim>\<open>RUnlock\<close> are only ever called by the holder of the lock.\<close>

definition mu_Unlock :: "world \<Rightarrow> world" where
  "mu_Unlock w = w\<lparr>lg := (lg w)\<lparr>mu := Unlocked\<rparr>\<rparr>"

definition mu_RLock :: "world \<Rightarrow> world option" where
  "mu_RLock w =
     (case mu (lg w) of
        Unlocked \<Rightarrow> Some (w\<lparr>lg := (lg w)\<lparr>mu := RLocked 1\<rparr>\<rparr>)
      | RLocked n \<Rightarrow> Some (w\<lparr>lg := (lg w)\<lparr>mu := RLocked (Suc n)\<rparr>\<rparr>)
      | Locked \<Rightarrow> None)"

definition mu_RUnlock :: "world \<Rightarrow> world" where
  "mu_RUnlock w =
     (case mu (lg w) of
        RLocked (Suc (Suc n)) \<Rightarrow> w\<lparr>lg := (lg w)\<lparr>mu := RLocked (Suc n)\<rparr>\<rparr>
      | _ \<Rightarrow> w\<lparr>lg := (lg w)\<lparr>mu := Unlocked\<rparr>\<rparr>)"

text \<open>How a call ends: it returns a value, it ends the process with an exit status
  (\<^verbatim>\<open>os.Exit\<close>), or it never returns because it waits for the mutex.\<close>

datatype 'a outcome = Returns 'a world | Exits int world | Blocks world

subsection \<open>Construction and threshold (both variants)\<close>

text \<open>logger.go holds two variants of the logger, lines 1-202 (\<open>_v1\<close>) and lines
  203-417 (\<open>_v2\<close>, the one package mlog is written against).\<close>

definition New_v1 :: "world \<Rightarrow> world" where
  "New_v1 w =
     (case bufio_NewWriter (Direct Stdout) w of
        (bufWriter', w1) \<Rightarrow>
          w1\<lparr>lg := \<lparr>mu = Unlocked, logger = log_New bufWriter' [] Lmsgprefix,
                    bufWriter = Some bufWriter', logLevel = LogLevelInfo, logFile = None\<rparr>\<rparr>)"

definition New_v2 :: "world \<Rightarrow> world" where
  "New_v2 w =
     (case bufio_NewWriter (Direct Stdout) w of
        (bufferWriter', w1) \<Rightarrow>
          w1\<lparr>lg := \<lparr>mu = Unlocked, logger = log_New bufferWriter' [] 0,
                    bufWriter = Some bufferWriter', logLevel = LogLevelInfo, logFile = None\<rparr>\<rparr>)"

definition SetLogLevel :: "LogLevel \<Rightarrow> world \<Rightarrow> unit outcome" where
  "SetLogLevel lvl w =
     (case mu_Lock w of
        None \<Rightarrow> Blocks w
      | Some w1 \<Rightarrow> Returns () (mu_Unlock (w1\<lparr>lg := (lg w1)\<lparr>logLevel := lvl\<rparr>\<rparr>)))"

subsection \<open>First variant (logger.go lines 1-202)\<close>

definition SetOutput_v1 :: "string \<Rightarrow> world \<Rightarrow> go_error option outcome" where
  "SetOutput_v1 filePath w =
     (case mu_Lock w of
        None \<Rightarrow> Blocks w
      | Some w1 \<Rightarrow>
          let w2 = (case bufWriter (lg w1) of None \<Rightarrow> w1 | Some a \<Rightarrow> snd (bufio_Flush a w1))
          in (case os_OpenFile filePath w2 of
                (Inl e, w3) \<Rightarrow> Returns (Some e) (mu_Unlock w3)
              | (Inr file, w3) \<Rightarrow>
                  let w4 = (case logFile (lg w3) of None \<Rightarrow> w3 | Some old \<Rightarrow> snd (File_Close old w3))
                  in (case bufio_NewWriter (Direct (File file)) w4 of
                        (bufWriter', w5) \<Rightarrow>
                          Returns None
                            (mu_Unlock
                               (w5\<lparr>lg := (lg w5)\<lparr>logger := log_SetOutput (logger (lg w5)) bufWriter',
                                                 bufWriter := Some bufWriter',
                                                 logFile := Some file\<rparr>\<rparr>)))))"

definition Flush_v1 :: "world \<Rightarrow> go_error option outcome" where
  "Flush_v1 w =
     (case mu_Lock w of
        None \<Rightarrow> Blocks w
      | Some w1 \<Rightarrow>
          (case bufWriter (lg w1) of
             Some a \<Rightarrow> (case bufio_Flush a w1 of (e, w2) \<Rightarrow> Returns e (mu_Unlock w2))
           | None \<Rightarrow> Returns None (mu_Unlock w1)))"

definition Log_v1 :: "('v list \<Rightarrow> string) \<Rightarrow> LogLevel \<Rightarrow> 'v list \<Rightarrow> world \<Rightarrow> unit outcome" where
  "Log_v1 Sprint lvl args w =
     (case mu_Lock w of
        None \<Rightarrow> Blocks w
      | Some w1 \<Rightarrow>
          if lvl <s logLevel (lg w1) then Returns () (mu_Unlock w1)
          else
            let w2 = log_Println (logger (lg w1)) (formatMessage Sprint lvl args w1) w1
            in if lvl = LogLevelFatal then
                 (case Flush_v1 w2 of
                    Blocks w3 \<Rightarrow> Blocks w3
                  | Exits c w3 \<Rightarrow> Exits c w3
                  | Returns e w3 \<Rightarrow>
                      Exits 1 (case logFile (lg w3) of
                                 None \<Rightarrow> w3
                               | Some fd \<Rightarrow> snd (File_Close fd w3)))
               else Returns () (mu_Unlock w2))"

definition Logf_v1 ::
    "(string \<Rightarrow> 'v list \<Rightarrow> string) \<Rightarrow> LogLevel \<Rightarrow> string \<Rightarrow> 'v list \<Rightarrow> world \<Rightarrow> unit outcome" where
  "Logf_v1 Sprintf lvl format args w =
     (case mu_Lock w of
        None \<Rightarrow> Blocks w
      | Some w1 \<Rightarrow>
          if lvl <s logLevel (lg w1) then Returns () (mu_Unlock w1)
          else
            let w2 = log_Println (logger (lg w1)) (formatMessagef Sprintf format lvl args w1) w1
            in if lvl = LogLevelFatal then
                 (case Flush_v1 w2 of
                    Blocks w3 \<Rightarrow> Blocks w3
                  | Exits c w3 \<Rightarrow> Exits c w3
                  | Returns e w3 \<Rightarrow>
                      Exits 1 (case logFile (lg w3) of
                                 None \<Rightarrow> w3
                               | Some fd \<Rightarrow> snd (File_Close fd w3)))
               else Returns () (mu_Unlock w2))"

text \<open>The convenience methods (logger.go lines 175-202): each forwards to \<^verbatim>\<open>Log\<close> or \<^verbatim>\<open>Logf\<close> with a
  fixed level.\<close>

definition Debug_v1 :: "('v list \<Rightarrow> string) \<Rightarrow> 'v list \<Rightarrow> world \<Rightarrow> unit outcome" where
  "Debug_v1 Sprint args w = Log_v1 Sprint LogLevelDebug args w"

definition Debugf_v1 ::
    "(string \<Rightarrow> 'v list \<Rightarrow> string) \<Rightarrow> string \<Rightarrow> 'v list \<Rightarrow> world \<Rightarrow> unit outcome" where
  "Debugf_v1 Sprintf format args w = Logf_v1 Sprintf LogLevelDebug format args w"

definition Info_v1 :: "('v list \<Rightarrow> string) \<Rightarrow> 'v list \<Rightarrow> world \<Rightarrow> unit outcome" where
  "Info_v1 Sprint args w = Log_v1 Sprint LogLevelInfo args w"

definition Infof_v1 ::
    "(string \<Rightarrow> 'v list \<Rightarrow> string) \<Rightarrow> string \<Rightarrow> 'v list \<Rightarrow> world \<Rightarrow> unit outcome" where
  "Infof_v1 Sprintf format args w = Logf_v1 Sprintf LogLevelInfo format args w"

definition Warn_v1 :: "('v list \<Rightarrow> string) \<Rightarrow> 'v list \<Rightarrow> world \<Rightarrow> unit outcome" where
  "Warn_v1 Sprint args w = Log_v1 Sprint LogLevelWarning args w"

definition Warnf_v1 ::
    "(string \<Rightarrow> 'v list \<Rightarrow> string) \<Rightarrow> string \<Rightarrow> 'v list \<Rightarrow> world \<Rightarrow> unit outcome" where
  "Warnf_v1 Sprintf format args w = Logf_v1 Sprintf LogLevelWarning format args w"

definition Error_v1 :: "('v list \<Rightarrow> string) \<Rightarrow> 'v list \<Rightarrow> world \<Rightarrow> unit outcome" where
  "Error_v1 Sprint args w = Log_v1 Sprint LogLevelError args w"

definition Errorf_v1 ::
    "(string \<Rightarrow> 'v list \<Rightarrow> string) \<Rightarrow> string \<Rightarrow> 'v list \<Rightarrow> world \<Rightarrow> unit outcome" where
  "Errorf_v1 Sprintf format args w = Logf_v1 Sprintf LogLevelError format args w"

definition Fatal_v1 :: "('v list \<Rightarrow> string) \<Rightarrow> 'v list \<Rightarrow> world \<Rightarrow> unit outcome" where
  "Fatal_v1 Sprint args w = Log_v1 Sprint LogLevelFatal args w"

definition Fatalf_v1 ::
    "(string \<Rightarrow> 'v list \<Rightarrow> string) \<Rightarrow> string \<Rightarrow> 'v list \<Rightarrow> world \<Rightarrow> unit outcome" where
  "Fatalf_v1 Sprintf format args w = Logf_v1 Sprintf LogLevelFatal format args w"

subsection \<open>Second variant (logger.go lines 203-417)\<close>

definition SetOutput_v2 :: "string \<Rightarrow> world \<Rightarrow> go_error option outcome" where
  "SetOutput_v2 filepath w =
     (case mu_Lock w of
        None \<Rightarrow> Blocks w
      | Some w1 \<Rightarrow>
          let w2 = (case bufWriter (lg w1) of None \<Rightarrow> w1 | Some a \<Rightarrow> snd (bufio_Flush a w1));
              w3 = (case logFile (lg w2) of None \<Rightarrow> w2 | Some old \<Rightarrow> snd (File_Close old w2))
          in (case os_OpenFile filepath w3 of
                (Inl e, w4) \<Rightarrow> Returns (Some e) (mu_Unlock w4)
              | (Inr file, w4) \<Rightarrow>
                  (case bufio_NewWriter (MultiWriter [File file, Stdout]) w4 of
                     (bufferWriter', w5) \<Rightarrow>
                       Returns None
                         (mu_Unlock
                            (w5\<lparr>lg := (lg w5)\<lparr>logger := log_New bufferWriter' [] 0,
                                              bufWriter := Some bufferWriter',
                                              logFile := Some file\<rparr>\<rparr>)))))"

definition Flush_v2 :: "world \<Rightarrow> go_error option outcome" where
  "Flush_v2 w =
     (case mu_Lock w of
        None \<Rightarrow> Blocks w
      | Some w1 \<Rightarrow>
          (case (case bufWriter (lg w1) of
                   Some a \<Rightarrow> bufio_Flush a w1
                 | None \<Rightarrow> (None, w1)) of
             (Some e, w2) \<Rightarrow> Returns (Some e) (mu_Unlock w2)
           | (None, w2) \<Rightarrow>
               (case logFile (lg w2) of
                  Some fd \<Rightarrow> (case File_Sync fd w2 of (e, w3) \<Rightarrow> Returns e (mu_Unlock w3))
                | None \<Rightarrow> Returns None (mu_Unlock w2))))"

definition Close_v2 :: "world \<Rightarrow> go_error option outcome" where
  "Close_v2 w =
     (case mu_Lock w of
        None \<Rightarrow> Blocks w
      | Some w1 \<Rightarrow>
          (case (case bufWriter (lg w1) of
                   Some a \<Rightarrow> bufio_Flush a w1
                 | None \<Rightarrow> (None, w1)) of
             (err1, w2) \<Rightarrow>
               (case logFile (lg w2) of
                  Some fd \<Rightarrow>
                    (case File_Close fd w2 of
                       (Some e, w3) \<Rightarrow> Returns (Some e) (mu_Unlock w3)
                     | (None, w3) \<Rightarrow> Returns err1 (mu_Unlock w3))
                | None \<Rightarrow> Returns err1 (mu_Unlock w2))))"

definition Log_v2 :: "('v list \<Rightarrow> string) \<Rightarrow> LogLevel \<Rightarrow> 'v list \<Rightarrow> world \<Rightarrow> unit outcome" where
  "Log_v2 Sprint level args w =
     (case mu_RLock w of
        None \<Rightarrow> Blocks w
      | Some w1 \<Rightarrow>
          if level <s logLevel (lg w1) then Returns () (mu_RUnlock w1)
          else
            (case mu_Lock (mu_RUnlock w1) of
               None \<Rightarrow> Blocks (mu_RUnlock w1)
             | Some w2 \<Rightarrow>
                 let w3 = log_Println (logger (lg w2)) (formatMessage Sprint level args w2) w2
                 in if level = LogLevelFatal then
                      (case Flush_v2 w3 of
                         Blocks w4 \<Rightarrow> Blocks w4
                       | Exits c w4 \<Rightarrow> Exits c w4
                       | Returns e w4 \<Rightarrow>
                           Exits 1 (case logFile (lg w4) of
                                      None \<Rightarrow> w4
                                    | Some fd \<Rightarrow> snd (File_Close fd w4)))
                    else Returns () (mu_Unlock w3)))"

definition Logf_v2 ::
    "(string \<Rightarrow> 'v list \<Rightarrow> string) \<Rightarrow> string \<Rightarrow> LogLevel \<Rightarrow> 'v list \<Rightarrow> world \<Rightarrow> unit outcome" where
  "Logf_v2 Sprintf format level args w =
     (case mu_RLock w of
        None \<Rightarrow> Blocks w
      | Some w1 \<Rightarrow>
          if level <s logLevel (lg w1) then Returns () (mu_RUnlock w1)
          else
            (case mu_Lock (mu_RUnlock w1) of
               None \<Rightarrow> Blocks (mu_RUnlock w1)
             | Some w2 \<Rightarrow>
                 let w3 = log_Println (logger (lg w2)) (formatMessagef Sprintf format level args w2) w2
                 in if level = LogLevelFatal then
                      (case Flush_v2 w3 of
                         Blocks w4 \<Rightarrow> Blocks w4
                       | Exits c w4 \<Rightarrow> Exits c w4
                       | Returns e w4 \<Rightarrow>
                           Exits 1 (case logFile (lg w4) of
                                      None \<Rightarrow> w4
                                    | Some fd \<Rightarrow> snd (File_Close fd w4)))
                    else Returns () (mu_Unlock w3)))"

text \<open>The convenience methods (logger.go lines 408-417): each forwards to \<^verbatim>\<open>Log\<close> or \<^verbatim>\<open>Logf\<close> with a
  fixed level.\<close>

definition Debug_v2 :: "('v list \<Rightarrow> string) \<Rightarrow> 'v list \<Rightarrow> world \<Rightarrow> unit outcome" where
  "Debug_v2 Sprint args w = Log_v2 Sprint LogLevelDebug args w"

definition Debugf_v2 ::
    "(string \<Rightarrow> 'v list \<Rightarrow> string) \<Rightarrow> string \<Rightarrow> 'v list \<Rightarrow> world \<Rightarrow> unit outcome" where
  "Debugf_v2 Sprintf format args w = Logf_v2 Sprintf format LogLevelDebug args w"

definition Info_v2 :: "('v list \<Rightarrow> string) \<Rightarrow> 'v list \<Rightarrow> world \<Rightarrow> unit outcome" where
  "Info_v2 Sprint args w = Log_v2 Sprint LogLevelInfo args w"

definition Infof_v2 ::
    "(string \<Rightarrow> 'v list \<Rightarrow> string) \<Rightarrow> string \<Rightarrow> 'v list \<Rightarrow> world \<Rightarrow> unit outcome" where
  "Infof_v2 Sprintf format args w = Logf_v2 Sprintf format LogLevelInfo args w"

definition Warn_v2 :: "('v list \<Rightarrow> string) \<Rightarrow> 'v list \<Rightarrow> world \<Rightarrow> unit outcome" where
  "Warn_v2 Sprint args w = Log_v2 Sprint LogLevelWarning args w"

definition Warnf_v2 ::
    "(string \<Rightarrow> 'v list \<Rightarrow> string) \<Rightarrow> string \<Rightarrow> 'v list \<Rightarrow> world \<Rightarrow> unit outcome" where
  "Warnf_v2 Sprintf format args w = Logf_v2 Sprintf format LogLevelWarning args w"

definition Error_v2 :: "('v list \<Rightarrow> string) \<Rightarrow> 'v list \<Rightarrow> world \<Rightarrow> unit outcome" where
  "Error_v2 Sprint args w = Log_v2 Sprint LogLevelError args w"

definition Errorf_v2 ::
    "(string \<Rightarrow> 'v list \<Rightarrow> string) \<Rightarrow> string \<Rightarrow> 'v list \<Rightarrow> world \<Rightarrow> unit outcome" where
  "Errorf_v2 Sprintf format args w = Logf_v2 Sprintf format LogLevelError args w"

definition Fatal_v2 :: "('v list \<Rightarrow> string) \<Rightarrow> 'v list \<Rightarrow> world \<Rightarrow> unit outcome" where
  "Fatal_v2 Sprint args w = Log_v2 Sprint LogLevelFatal args w"

definition Fatalf_v2 ::
    "(string \<Rightarrow> 'v list \<Rightarrow> string) \<Rightarrow> string \<Rightarrow> 'v list \<Rightarrow> world \<Rightarrow> unit outcome" where
  "Fatalf_v2 Sprintf format args w = Logf_v2 Sprintf format LogLevelFatal args w"

subsection \<open>Package mlog\<close>

text \<open>mlog.go: \<^verbatim>\<open>var mlog = logger.New()\<close>, and package-level functions that forward to
  that instance. The logger of the world is the package's instance.\<close>

definition mlog :: "world \<Rightarrow> world" where
  "mlog w = New_v2 w"

definition mlog_SetLogLevel :: "LogLevel \<Rightarrow> world \<Rightarrow> unit outcome" where
  "mlog_SetLogLevel level w = SetLogLevel level w"

definition mlog_SetOutput :: "string \<Rightarrow> world \<Rightarrow> go_error option outcome" where
  "mlog_SetOutput filepath w = SetOutput_v2 filepath w"

definition mlog_Flush :: "world \<Rightarrow> go_error option outcome" where
  "mlog_Flush w = Flush_v2 w"

definition mlog_Close :: "world \<Rightarrow> go_error option outcome" where
  "mlog_Close w = Close_v2 w"

definition mlog_Log :: "('v list \<Rightarrow> string) \<Rightarrow> LogLevel \<Rightarrow> 'v list \<Rightarrow> world \<Rightarrow> unit outcome" where
  "mlog_Log Sprint level args w = Log_v2 Sprint level args w"

definition mlog_Logf ::
    "(string \<Rightarrow> 'v list \<Rightarrow> string) \<Rightarrow> string \<Rightarrow> LogLevel \<Rightarrow> 'v list \<Rightarrow> world \<Rightarrow> unit outcome" where
  "mlog_Logf Sprintf format level args w = Logf_v2 Sprintf format level args w"

definition mlog_Debug :: "('v list \<Rightarrow> string) \<Rightarrow> 'v list \<Rightarrow> world \<Rightarrow> unit outcome" where
  "mlog_Debug Sprint args w = Debug_v2 Sprint args w"

definition mlog_Debugf ::
    "(string \<Rightarrow> 'v list \<Rightarrow> string) \<Rightarrow> string \<Rightarrow> 'v list \<Rightarrow> world \<Rightarrow> unit outcome" where
  "mlog_Debugf Sprintf format args w = Debugf_v2 Sprintf format args w"

definition mlog_Info :: "('v list \<Rightarrow> string) \<Rightarrow> 'v list \<Rightarrow> world \<Rightarrow> unit outcome" where
  "mlog_Info Sprint args w = Info_v2 Sprint args w"

definition mlog_Infof ::
    "(string \<Rightarrow> 'v list \<Rightarrow> string) \<Rightarrow> string \<Rightarrow> 'v list \<Rightarrow> world \<Rightarrow> unit outcome" where
  "mlog_Infof Sprintf format args w = Infof_v2 Sprintf format args w"

definition mlog_Warn :: "('v list \<Rightarrow> string) \<Rightarrow> 'v list \<Rightarrow> world \<Rightarrow> unit outcome" where
  "mlog_Warn Sprint args w = Warn_v2 Sprint args w"

definition mlog_Warnf ::
    "(string \<Rightarrow> 'v list \<Rightarrow> string) \<Rightarrow> string \<Rightarrow> 'v list \<Rightarrow> world \<Rightarrow> unit outcome" where
  "mlog_Warnf Sprintf format args w = Warnf_v2 Sprintf format args w"

definition mlog_Error :: "('v list \<Rightarrow> string) \<Rightarrow> 'v list \<Rightarrow> world \<Rightarrow> unit outcome" where
  "mlog_Error Sprint args w = Error_v2 Sprint args w"

definition mlog_Errorf ::
    "(string \<Rightarrow> 'v list \<Rightarrow> string) \<Rightarrow> string \<Rightarrow> 'v list \<Rightarrow> world \<Rightarrow> unit outcome" where
  "mlog_Errorf Sprintf format args w = Errorf_v2 Sprintf format args w"

definition mlog_Fatal :: "('v list \<Rightarrow> string) \<Rightarrow> 'v list \<Rightarrow> world \<Rightarrow> unit outcome" where
  "mlog_Fatal Sprint args w = Fatal_v2 Sprint args w"

definition mlog_Fatalf ::
    "(string \<Rightarrow> 'v list \<Rightarrow> string) \<Rightarrow> string \<Rightarrow> 'v list \<Rightarrow> world \<Rightarrow> unit outcome" where
  "mlog_Fatalf Sprintf format args w = Fatalf_v2 Sprintf format args w"

section \<open>Observations used by the properties\<close>

text \<open>The world in which a call ended.\<close>

fun after :: "'a outcome \<Rightarrow> world" where
  "after (Returns x w) = w"
| "after (Exits c w) = w"
| "after (Blocks w) = w"

text \<open>What a stream holds: the console's output, or the contents of the file a handle
  names.\<close>

fun stream_contents :: "world \<Rightarrow> os_stream \<Rightarrow> string" where
  "stream_contents w Stdout = console w"
| "stream_contents w (File fd) = contents w (f_name (files w fd))"

fun streams :: "io_Writer \<Rightarrow> os_stream list" where
  "streams (Direct s) = [s]"
| "streams (MultiWriter ss) = ss"

text \<open>The three writers the logger ever buffers: the console, a file, and the tee of a
  file and the console.\<close>

fun plain_target :: "io_Writer \<Rightarrow> bool" where
  "plain_target (Direct s) = True"
| "plain_target (MultiWriter [File fd, Stdout]) = True"
| "plain_target (MultiWriter ss) = False"

fun is_write :: "syscall \<Rightarrow> bool" where
  "is_write (SysWrite s p) = True"
| "is_write c = False"

text \<open>\<open>io_only w w1\<close>: from \<open>w\<close> to \<open>w1\<close> the logger's fields, the file handles and the
  clock are untouched, and every system call made was a write.\<close>

definition io_only :: "world \<Rightarrow> world \<Rightarrow> bool" where
  "io_only w w1 =
     (lg w1 = lg w \<and> files w1 = files w \<and> next_file w1 = next_file w \<and>
      next_writer w1 = next_writer w \<and> clock w1 = clock w \<and>
      take (length (trace w)) (trace w1) = trace w \<and>
      list_all is_write (drop (length (trace w)) (trace w1)))"

text \<open>\<open>wired w a\<close>: the line logger writes, with an empty prefix, to the buffered writer
  at address \<open>a\<close>, which is also the one \<^verbatim>\<open>Flush\<close> flushes.\<close>

definition wired :: "world \<Rightarrow> nat \<Rightarrow> bool" where
  "wired w a = (bufWriter (lg w) = Some a \<and> out (logger (lg w)) = a \<and> prefix (logger (lg w)) = [])"

text \<open>A world before the program has done anything: nothing written, no file, the
  logger's fields zero.\<close>

definition world0 :: world where
  "world0 =
     \<lparr>console = [], disk = (\<lambda>path. None),
      files = (\<lambda>fd. \<lparr>f_name = [], f_closed = True\<rparr>), next_file = 0,
      writers = (\<lambda>a. \<lparr>buf = [], err = None, wr = Direct Stdout\<rparr>), next_writer = 0,
      faults = [], trace = [],
      clock = \<lparr>t_year = 2024, t_month = 3, t_day = 9, t_hour = 7, t_minute = 5, t_second = 0\<rparr>,
      lg = \<lparr>mu = Unlocked, logger = \<lparr>out = 0, prefix = [], flag = 0\<rparr>, bufWriter = None,
            logLevel = 0, logFile = None\<rparr>\<rparr>"

text \<open>The world with the logger's mutex held for writing.\<close>

definition locked :: "world \<Rightarrow> world" where
  "locked w = w\<lparr>lg := (lg w)\<lparr>mu := Locked\<rparr>\<rparr>"

text \<open>
  \<open>stuck_with_line w a line r\<close>: the call that started in \<open>w\<close> never returns and never
  exits; it waits for the mutex, which is still held. No file was synced or closed on
  the way, the only system calls were writes, and when the buffered writer at \<open>a\<close> had
  room for \<open>line\<close> nothing was written at all: the line sits in the buffer.
\<close>

definition stuck_with_line :: "world \<Rightarrow> nat \<Rightarrow> string \<Rightarrow> 'a outcome \<Rightarrow> bool" where
  "stuck_with_line w a line r =
     (case r of
        Blocks w' \<Rightarrow>
          mu (lg w') = Locked \<and> files w' = files w \<and> logFile (lg w') = logFile (lg w) \<and>
          list_all is_write (drop (length (trace w)) (trace w')) \<and>
          (if err (writers w a) = None \<and> length line \<le> defaultBufSize - length (buf (writers w a))
           then trace w' = trace w \<and> console w' = console w \<and> disk w' = disk w \<and>
                buf (writers w' a) = buf (writers w a) @ line
           else True)
      | Returns x w' \<Rightarrow> False
      | Exits c w' \<Rightarrow> False)"

text \<open>\<open>default_logger w w'\<close>: in \<open>w'\<close> the logger has threshold Info, no backing file, a free
  mutex and an empty buffered writer over the console, allocated at the next free
  address of \<open>w\<close>; nothing was written and no file touched to get there.\<close>

definition default_logger :: "world \<Rightarrow> world \<Rightarrow> bool" where
  "default_logger w w' =
     (logLevel (lg w') = LogLevelInfo \<and> logFile (lg w') = None \<and> mu (lg w') = Unlocked \<and>
      wired w' (next_writer w) \<and>
      writers w' (next_writer w) = \<lparr>buf = [], err = None, wr = Direct Stdout\<rparr> \<and>
      console w' = console w \<and> disk w' = disk w \<and> files w' = files w \<and> trace w' = trace w)"

text \<open>\<open>returns_after_writes w r\<close>: the call returned to its caller (a \<^verbatim>\<open>func\<close> without a
  result: no error is handed back), the logger's fields, mutex included, are as before,
  and the only system calls made were writes.\<close>

definition returns_after_writes :: "world \<Rightarrow> unit outcome \<Rightarrow> bool" where
  "returns_after_writes w r =
     (case r of
        Returns x w' \<Rightarrow> io_only w w'
      | Exits c w' \<Rightarrow> False
      | Blocks w' \<Rightarrow> False)"

text \<open>\<open>returns_with_line w a line r\<close>: as above, and when the buffered writer at \<open>a\<close> had
  room for \<open>line\<close> no system call was made at all: the line was appended to the buffer.\<close>

definition returns_with_line :: "world \<Rightarrow> nat \<Rightarrow> string \<Rightarrow> unit outcome \<Rightarrow> bool" where
  "returns_with_line w a line r =
     (case r of
        Returns x w' \<Rightarrow>
          io_only w w' \<and>
          (if err (writers w a) = None \<and> length line \<le> defaultBufSize - length (buf (writers w a))
           then trace w' = trace w \<and> console w' = console w \<and> disk w' = disk w \<and>
                buf (writers w' a) = buf (writers w a) @ line
           else True)
      | Exits c w' \<Rightarrow> False
      | Blocks w' \<Rightarrow> False)"

text \<open>
  \<open>emitted w a line r\<close>: the call handed \<open>line\<close> to the buffered writer at \<open>a\<close>. When the
  writer was healthy and had room, the line is appended to its buffer without a system
  call; and whenever the writer is healthy afterwards, what its streams hold followed
  by what is buffered has grown by exactly \<open>line\<close>.
\<close>

definition emitted :: "world \<Rightarrow> nat \<Rightarrow> string \<Rightarrow> 'a outcome \<Rightarrow> bool" where
  "emitted w a line r =
     ((err (writers w a) = None \<and> length line \<le> defaultBufSize - length (buf (writers w a)) \<longrightarrow>
         err (writers (after r) a) = None \<and> buf (writers (after r) a) = buf (writers w a) @ line \<and>
         trace (after r) = trace w) \<and>
      (plain_target (wr (writers w a)) \<and> err (writers (after r) a) = None \<longrightarrow>
         (\<forall>s\<in>set (streams (wr (writers w a))).
            stream_contents (after r) s @ buf (writers (after r) a)
              = stream_contents w s @ buf (writers w a) @ line)))"

text \<open>The package's logger after a write to the console has failed: the buffered writer
  carries a sticky error.\<close>

definition world_failed :: world where
  "world_failed = set_writer 0 \<lparr>buf = [], err = Some ErrWrite, wr = Direct Stdout\<rparr> (mlog world0)"

text \<open>The ranges of the calendar fields of a wall-clock time with a four-digit year.\<close>

definition calendar :: "go_Time \<Rightarrow> bool" where
  "calendar t =
     (t_year t < 10000 \<and> 1 \<le> t_month t \<and> t_month t \<le> 12 \<and> 1 \<le> t_day t \<and> t_day t \<le> 31 \<and>
      t_hour t < 24 \<and> t_minute t < 60 \<and> t_second t < 60)"

text \<open>\<open>agrees_plain Sprintf\<close>: the rendering agrees with the plain verbs wherever
  \<open>Sprintf_plain\<close> is defined.\<close>

definition agrees_plain :: "(string \<Rightarrow> go_value list \<Rightarrow> string) \<Rightarrow> bool" where
  "agrees_plain Sprintf = (\<forall>format args m. Sprintf_plain format args = Some m \<longrightarrow> Sprintf format args = m)"

text \<open>
  \<open>file_sink w a fd path t\<close>: the logger is idle and writes through the buffered writer
  at \<open>a\<close>, whose underlying writer is \<open>t\<close>; its backing file is the open handle \<open>fd\<close> on
  \<open>path\<close>.
\<close>

definition file_sink :: "world \<Rightarrow> nat \<Rightarrow> nat \<Rightarrow> string \<Rightarrow> io_Writer \<Rightarrow> bool" where
  "file_sink w a fd path t =
     (wired w a \<and> mu (lg w) = Unlocked \<and> logFile (lg w) = Some fd \<and>
      f_name (files w fd) = path \<and> \<not> f_closed (files w fd) \<and> wr (writers w a) = t)"

text \<open>The backing file, if any, is a handle the process has been given.\<close>

definition allocated :: "world \<Rightarrow> bool" where
  "allocated w = (case logFile (lg w) of None \<Rightarrow> True | Some fd \<Rightarrow> fd < next_file w)"

text \<open>Scenarios: the package's logger after \<^verbatim>\<open>SetOutput("app.log")\<close> has succeeded; the
  same for a logger of the first variant; the package's logger with one line buffered
  when the next write is going to fail; and the package's logger after a second
  \<^verbatim>\<open>SetOutput\<close>, to a path that cannot be opened.\<close>

definition world_redirected :: world where
  "world_redirected = after (mlog_SetOutput ''app.log'' (mlog world0))"

definition world_redirected_v1 :: world where
  "world_redirected_v1 = after (SetOutput_v1 ''app.log'' (New_v1 world0))"

definition world_pending :: world where
  "world_pending = (after (mlog_Info concat [''up''] world_redirected))\<lparr>faults := [True]\<rparr>"

definition world_bad_path :: world where
  "world_bad_path = after (mlog_SetOutput ''/no/such/dir/app.log'' (world_redirected\<lparr>faults := [False, True]\<rparr>))"

section \<open>Properties of the standard-library layer\<close>

lemma set_writer_same: "writers (set_writer a b w) a = b"
  by (simp add: set_writer_def)

lemma io_only_iff:
  "io_only w w1 \<longleftrightarrow>
     lg w1 = lg w \<and> files w1 = files w \<and> next_file w1 = next_file w \<and>
     next_writer w1 = next_writer w \<and> clock w1 = clock w \<and>
     (\<exists>es. trace w1 = trace w @ es \<and> list_all is_write es)"
proof -
  have "(take (length (trace w)) (trace w1) = trace w \<and>
         list_all is_write (drop (length (trace w)) (trace w1)))
        \<longleftrightarrow> (\<exists>es. trace w1 = trace w @ es \<and> list_all is_write es)"
  proof
    assume h: "take (length (trace w)) (trace w1) = trace w \<and>
         list_all is_write (drop (length (trace w)) (trace w1))"
    have "trace w1 = take (length (trace w)) (trace w1) @ drop (length (trace w)) (trace w1)"
      by simp
    with h show "\<exists>es. trace w1 = trace w @ es \<and> list_all is_write es"
      by metis
  next
    assume "\<exists>es. trace w1 = trace w @ es \<and> list_all is_write es"
    then show "take (length (trace w)) (trace w1) = trace w \<and>
         list_all is_write (drop (length (trace w)) (trace w1))"
      by auto
  qed
  then show ?thesis by (simp add: io_only_def)
qed

lemma io_only_refl: "io_only w w"
  by (simp add: io_only_iff)

lemma io_only_trans: "io_only w w1 \<Longrightarrow> io_only w1 w2 \<Longrightarrow> io_only w w2"
  by (auto simp: io_only_iff)

lemma io_only_set_writer: "io_only w w1 \<Longrightarrow> io_only w (set_writer a b w1)"
  by (simp add: io_only_iff set_writer_def)

lemma stream_Write_frame:
  "stream_Write s p w = (e, w1) \<Longrightarrow> io_only w w1 \<and> writers w1 = writers w"
  by (cases s)
     (auto simp: io_only_iff Stdout_Write_def File_Write_def syscall_done_def Let_def
        split: if_splits)

lemma multi_Write_frame:
  "multi_Write ss p w = (e, w1) \<Longrightarrow> io_only w w1 \<and> writers w1 = writers w"
proof (induction ss arbitrary: w)
  case Nil
  then show ?case by (simp add: io_only_refl)
next
  case (Cons s ss)
  obtain e0 w0 where sw: "stream_Write s p w = (e0, w0)" by (cases "stream_Write s p w")
  show ?case
  proof (cases e0)
    case None
    with Cons.prems sw have "multi_Write ss p w0 = (e, w1)" by simp
    from Cons.IH [OF this] stream_Write_frame [OF sw] show ?thesis
      by (auto intro: io_only_trans)
  next
    case (Some x)
    with Cons.prems sw stream_Write_frame [OF sw] show ?thesis by auto
  qed
qed

lemma io_Write_frame:
  "io_Write t p w = (e, w1) \<Longrightarrow> io_only w w1 \<and> writers w1 = writers w"
  by (cases t) (auto dest: stream_Write_frame multi_Write_frame)

lemma bufio_Flush_frame:
  "bufio_Flush a w = (e, w1) \<Longrightarrow>
     io_only w w1 \<and> wr (writers w1 a) = wr (writers w a) \<and>
     (\<forall>a'. a' \<noteq> a \<longrightarrow> writers w1 a' = writers w a')"
  by (auto simp: bufio_Flush_def Let_def io_only_refl set_writer_def
        split: if_splits prod.splits option.splits
        dest!: io_Write_frame intro: io_only_set_writer [unfolded set_writer_def])

lemma bufio_Write_frame:
  "bufio_Write a p w = (e, w1) \<Longrightarrow>
     io_only w w1 \<and> wr (writers w1 a) = wr (writers w a) \<and>
     (\<forall>a'. a' \<noteq> a \<longrightarrow> writers w1 a' = writers w a')"
proof (induction a p w arbitrary: e w1 rule: bufio_Write.induct)
  case (1 a p w)
  let ?b = "writers w a"
  let ?avail = "defaultBufSize - length (buf ?b)"
  show ?case
  proof (cases "length p > ?avail \<and> err ?b = None")
    case False
    with "1.prems" show ?thesis
      by (subst (asm) bufio_Write.simps)
         (auto simp: Let_def io_only_refl set_writer_def io_only_iff split: if_splits)
  next
    case big: True
    show ?thesis
    proof (cases "buf ?b = []")
      case True
      with big "1.prems" show ?thesis
        by (subst (asm) bufio_Write.simps)
           (auto simp: Let_def set_writer_def split: prod.splits option.splits
              dest!: io_Write_frame intro: io_only_set_writer [unfolded set_writer_def])
    next
      case False
      let ?w0 = "set_writer a (?b\<lparr>buf := buf ?b @ take ?avail p\<rparr>) w"
      obtain e0 w0 where fl: "bufio_Flush a ?w0 = (e0, w0)" by (cases "bufio_Flush a ?w0")
      from bufio_Flush_frame [OF fl]
      have f0: "io_only w w0" "wr (writers w0 a) = wr (writers w a)"
        "\<forall>a'. a' \<noteq> a \<longrightarrow> writers w0 a' = writers w a'"
        by (auto simp: set_writer_def io_only_iff)
      show ?thesis
      proof (cases e0)
        case None
        with big False fl "1.prems" have rec: "bufio_Write a (drop ?avail p) w0 = (e, w1)"
          by (subst (asm) bufio_Write.simps) (simp add: Let_def)
        from "1.IH" [OF refl refl big False fl [symmetric] None rec] f0
        show ?thesis by (auto intro: io_only_trans)
      next
        case (Some x)
        with big False fl "1.prems" have "e = Some x \<and> w1 = w0"
          by (subst (asm) bufio_Write.simps) (simp add: Let_def)
        with f0 show ?thesis by simp
      qed
    qed
  qed
qed

lemma io_Write_delivers:
  assumes "io_Write t p w = (None, w1)" and "plain_target t"
  shows "\<forall>s\<in>set (streams t). stream_contents w1 s = stream_contents w s @ p"
proof -
  from assms(2) consider s where "t = Direct s" | fd where "t = MultiWriter [File fd, Stdout]"
    by (auto elim: plain_target.elims)
  then show ?thesis
  proof cases
    case 1
    with assms(1) show ?thesis
      by (cases s)
         (auto simp: Stdout_Write_def File_Write_def syscall_done_def Let_def
            contents_def split: if_splits)
  next
    case 2
    with assms(1) show ?thesis
      by (auto simp: Stdout_Write_def File_Write_def syscall_done_def Let_def
            contents_def split: if_splits prod.splits option.splits)
  qed
qed

lemma io_Write_file_only:
  "io_Write (Direct (File fd)) p w = (e, w1) \<Longrightarrow> console w1 = console w"
  by (auto simp: File_Write_def syscall_done_def Let_def split: if_splits)

lemma bufio_Flush_delivers:
  assumes "bufio_Flush a w = (None, w1)" and "plain_target (wr (writers w a))"
  shows "(\<forall>s\<in>set (streams (wr (writers w a))).
            stream_contents w1 s = stream_contents w s @ buf (writers w a))
         \<and> buf (writers w1 a) = [] \<and> err (writers w1 a) = None"
proof (cases "buf (writers w a) = []")
  case True
  with assms show ?thesis
    by (auto simp: bufio_Flush_def Let_def set_writer_def split: if_splits prod.splits option.splits)
next
  case False
  with assms(1) obtain w0 where io: "io_Write (wr (writers w a)) (buf (writers w a)) w = (None, w0)"
    and w1: "w1 = set_writer a ((writers w a)\<lparr>buf := []\<rparr>) w0" and e: "err (writers w a) = None"
    by (auto simp: bufio_Flush_def Let_def split: if_splits prod.splits option.splits)
  have "\<And>s. stream_contents w1 s = stream_contents w0 s"
    using w1 by (case_tac s) (simp_all add: set_writer_def contents_def)
  with io_Write_delivers [OF io assms(2)] w1 e show ?thesis
    by (simp add: set_writer_def)
qed

lemma bufio_Flush_result:
  "bufio_Flush a w = (e, w1) \<Longrightarrow> err (writers w1 a) = e"
  by (auto simp: bufio_Flush_def Let_def set_writer_def split: if_splits prod.splits option.splits)

lemma bufio_Write_delivers:
  "bufio_Write a p w = (e, w1) \<Longrightarrow> plain_target (wr (writers w a)) \<Longrightarrow>
   err (writers w1 a) = None \<Longrightarrow>
     e = None \<and> err (writers w a) = None \<and>
     (\<forall>s\<in>set (streams (wr (writers w a))).
        stream_contents w1 s @ buf (writers w1 a) = stream_contents w s @ buf (writers w a) @ p)"
proof (induction a p w arbitrary: e w1 rule: bufio_Write.induct)
  case (1 a p w)
  let ?b = "writers w a"
  let ?avail = "defaultBufSize - length (buf ?b)"
  note pt = \<open>plain_target (wr ?b)\<close>
  note ok = \<open>err (writers w1 a) = None\<close>
  have same: "\<And>b s. stream_contents (set_writer a b w) s = stream_contents w s"
    by (case_tac s) (simp_all add: set_writer_def contents_def)
  show ?case
  proof (cases "length p > ?avail \<and> err ?b = None")
    case False
    with "1.prems"(1) ok show ?thesis
      by (subst (asm) bufio_Write.simps)
         (auto simp: Let_def same set_writer_same split: if_splits)
  next
    case big: True
    show ?thesis
    proof (cases "buf ?b = []")
      case True
      obtain e0 w0 where io: "io_Write (wr ?b) p w = (e0, w0)" by (cases "io_Write (wr ?b) p w")
      from io_Write_frame [OF io] have wr0: "writers w0 = writers w" by simp
      show ?thesis
      proof (cases e0)
        case None
        with big True io "1.prems"(1) have "e = None" "w1 = w0"
          by (subst (asm) bufio_Write.simps, simp add: Let_def)+
        with io_Write_delivers [OF io [unfolded None] pt] wr0 big True show ?thesis
          by simp
      next
        case (Some x)
        with big True io "1.prems"(1) have "err (writers w1 a) = Some x"
          by (subst (asm) bufio_Write.simps) (auto simp: Let_def set_writer_def)
        with ok show ?thesis by simp
      qed
    next
      case False
      let ?w0 = "set_writer a (?b\<lparr>buf := buf ?b @ take ?avail p\<rparr>) w"
      obtain e0 w0 where fl: "bufio_Flush a ?w0 = (e0, w0)" by (cases "bufio_Flush a ?w0")
      have wr0: "wr (writers ?w0 a) = wr ?b" by (simp add: set_writer_def)
      from bufio_Flush_frame [OF fl] wr0 have wrw0: "wr (writers w0 a) = wr ?b"
        by simp
      show ?thesis
      proof (cases e0)
        case None
        with big False fl "1.prems"(1) have rec: "bufio_Write a (drop ?avail p) w0 = (e, w1)"
          by (subst (asm) bufio_Write.simps) (simp add: Let_def)
        have pt0: "plain_target (wr (writers w0 a))" using pt wrw0 by simp
        from "1.IH" [OF refl refl big False fl [symmetric] None rec pt0 ok]
        have e: "e = None"
          and step2: "\<forall>s\<in>set (streams (wr ?b)).
            stream_contents w1 s @ buf (writers w1 a)
              = stream_contents w0 s @ buf (writers w0 a) @ drop ?avail p"
          using wrw0 by simp_all
        from bufio_Flush_delivers [OF fl [unfolded None]] pt wr0
        have step1: "\<forall>s\<in>set (streams (wr ?b)).
            stream_contents w0 s = stream_contents ?w0 s @ buf ?b @ take ?avail p"
          and b0: "buf (writers w0 a) = []"
          by (simp_all add: set_writer_def)
        from step1 step2 b0 same e big show ?thesis by simp
      next
        case (Some x)
        with big False fl "1.prems"(1) have "w1 = w0"
          by (subst (asm) bufio_Write.simps) (simp add: Let_def)
        with bufio_Flush_result [OF fl] Some ok show ?thesis by simp
      qed
    qed
  qed
qed

section \<open>Properties of the logger\<close>

lemma mu_Lock_unlocked: "mu (lg w) = Unlocked \<Longrightarrow> mu_Lock w = Some (locked w)"
  by (simp add: mu_Lock_def locked_def)

lemma mu_Lock_locked: "mu (lg w) = Locked \<Longrightarrow> mu_Lock w = None"
  by (simp add: mu_Lock_def)

lemma unlock_locked: "mu (lg w) = Unlocked \<Longrightarrow> mu_Unlock (locked w) = w"
  by (simp add: mu_Unlock_def locked_def)

lemma runlock_rlock: "mu (lg w) = Unlocked \<Longrightarrow> mu_RLock w = Some (w\<lparr>lg := (lg w)\<lparr>mu := RLocked 1\<rparr>\<rparr>)
   \<and> mu_RUnlock (w\<lparr>lg := (lg w)\<lparr>mu := RLocked 1\<rparr>\<rparr>) = w"
  by (simp add: mu_RLock_def mu_RUnlock_def)

lemma log_Println_lg: "lg (log_Println L s w) = lg w"
proof -
  obtain e w1 where "bufio_Write (out L) (prefix L @ s @ newline) w = (e, w1)"
    by (cases "bufio_Write (out L) (prefix L @ s @ newline) w")
  with bufio_Write_frame [OF this] show ?thesis
    by (simp add: log_Println_def io_only_iff)
qed

lemma Flush_v2_locked: "mu (lg w) = Locked \<Longrightarrow> Flush_v2 w = Blocks w"
  by (simp add: Flush_v2_def mu_Lock_locked)

lemma Flush_v1_locked: "mu (lg w) = Locked \<Longrightarrow> Flush_v1 w = Blocks w"
  by (simp add: Flush_v1_def mu_Lock_locked)

lemma Log_v2_cases:
  assumes "mu (lg w) = Unlocked"
  shows "Log_v2 Sprint lvl args w =
     (if lvl <s logLevel (lg w) then Returns () w
      else if lvl = LogLevelFatal
        then Blocks (log_Println (logger (lg w)) (formatMessage Sprint lvl args w) (locked w))
      else Returns () (mu_Unlock (log_Println (logger (lg w)) (formatMessage Sprint lvl args w) (locked w))))"
proof -
  let ?W = "log_Println (logger (lg w)) (formatMessage Sprint lvl args w) (locked w)"
  have fl: "\<And>L s. Flush_v2 (log_Println L s (locked w)) = Blocks (log_Println L s (locked w))"
    by (rule Flush_v2_locked) (simp add: log_Println_lg locked_def)
  have fm: "formatMessage Sprint lvl args (locked w) = formatMessage Sprint lvl args w"
    by (simp add: formatMessage_def locked_def)
  have lgl: "logger (lg (locked w)) = logger (lg w)" by (simp add: locked_def)
  from runlock_rlock [OF assms] mu_Lock_unlocked [OF assms] fl fm lgl show ?thesis
    by (simp add: Log_v2_def Let_def)
qed

lemma Log_v1_cases:
  assumes "mu (lg w) = Unlocked"
  shows "Log_v1 Sprint lvl args w =
     (if lvl <s logLevel (lg w) then Returns () w
      else if lvl = LogLevelFatal
        then Blocks (log_Println (logger (lg w)) (formatMessage Sprint lvl args w) (locked w))
      else Returns () (mu_Unlock (log_Println (logger (lg w)) (formatMessage Sprint lvl args w) (locked w))))"
proof -
  let ?W = "log_Println (logger (lg w)) (formatMessage Sprint lvl args w) (locked w)"
  have fl: "\<And>L s. Flush_v1 (log_Println L s (locked w)) = Blocks (log_Println L s (locked w))"
    by (rule Flush_v1_locked) (simp add: log_Println_lg locked_def)
  have fm: "formatMessage Sprint lvl args (locked w) = formatMessage Sprint lvl args w"
    by (simp add: formatMessage_def locked_def)
  have lgl: "logger (lg (locked w)) = logger (lg w)" "logLevel (lg (locked w)) = logLevel (lg w)"
    by (simp_all add: locked_def)
  from unlock_locked [OF assms] mu_Lock_unlocked [OF assms] fl fm lgl show ?thesis
    by (simp add: Log_v1_def Let_def)
qed

lemma Logf_v2_cases:
  assumes "mu (lg w) = Unlocked"
  shows "Logf_v2 Sprintf format lvl args w =
     (if lvl <s logLevel (lg w) then Returns () w
      else if lvl = LogLevelFatal
        then Blocks (log_Println (logger (lg w)) (formatMessagef Sprintf format lvl args w) (locked w))
      else Returns () (mu_Unlock (log_Println (logger (lg w)) (formatMessagef Sprintf format lvl args w) (locked w))))"
proof -
  have fl: "\<And>L s. Flush_v2 (log_Println L s (locked w)) = Blocks (log_Println L s (locked w))"
    by (rule Flush_v2_locked) (simp add: log_Println_lg locked_def)
  have fm: "formatMessagef Sprintf format lvl args (locked w) = formatMessagef Sprintf format lvl args w"
    by (simp add: formatMessagef_def locked_def)
  have lgl: "logger (lg (locked w)) = logger (lg w)" by (simp add: locked_def)
  from runlock_rlock [OF assms] mu_Lock_unlocked [OF assms] fl fm lgl show ?thesis
    by (simp add: Logf_v2_def Let_def)
qed

lemma Logf_v1_cases:
  assumes "mu (lg w) = Unlocked"
  shows "Logf_v1 Sprintf lvl format args w =
     (if lvl <s logLevel (lg w) then Returns () w
      else if lvl = LogLevelFatal
        then Blocks (log_Println (logger (lg w)) (formatMessagef Sprintf format lvl args w) (locked w))
      else Returns () (mu_Unlock (log_Println (logger (lg w)) (formatMessagef Sprintf format lvl args w) (locked w))))"
proof -
  have fl: "\<And>L s. Flush_v1 (log_Println L s (locked w)) = Blocks (log_Println L s (locked w))"
    by (rule Flush_v1_locked) (simp add: log_Println_lg locked_def)
  have fm: "formatMessagef Sprintf format lvl args (locked w) = formatMessagef Sprintf format lvl args w"
    by (simp add: formatMessagef_def locked_def)
  have lgl: "logger (lg (locked w)) = logger (lg w)" "logLevel (lg (locked w)) = logLevel (lg w)"
    by (simp_all add: locked_def)
  from unlock_locked [OF assms] mu_Lock_unlocked [OF assms] fl fm lgl show ?thesis
    by (simp add: Logf_v1_def Let_def)
qed

lemma log_Println_frame: "io_only w (log_Println L s w)"
proof -
  obtain e w1 where "bufio_Write (out L) (prefix L @ s @ newline) w = (e, w1)"
    by (cases "bufio_Write (out L) (prefix L @ s @ newline) w")
  with bufio_Write_frame [OF this] show ?thesis
    by (simp add: log_Println_def)
qed

lemma log_Println_fits:
  assumes "err (writers w (out L)) = None"
    and "length (prefix L @ s @ newline) \<le> defaultBufSize - length (buf (writers w (out L)))"
  shows "log_Println L s w =
           set_writer (out L) ((writers w (out L))\<lparr>buf := buf (writers w (out L)) @ prefix L @ s @ newline\<rparr>) w"
  using assms by (simp add: log_Println_def bufio_Write.simps Let_def)

lemma stuck_Println:
  assumes "wired w a"
  shows "stuck_with_line w a (s @ newline) (Blocks (log_Println (logger (lg w)) s (locked w)) :: 'a outcome)"
proof -
  let ?L = "logger (lg w)"
  let ?W = "log_Println ?L s (locked w)"
  from assms have out: "out ?L = a" and pre: "prefix ?L = []" by (simp_all add: wired_def)
  have fr: "io_only (locked w) ?W" by (rule log_Println_frame)
  then have 1: "mu (lg ?W) = Locked" "files ?W = files w" "logFile (lg ?W) = logFile (lg w)"
    "list_all is_write (drop (length (trace w)) (trace ?W))"
    by (simp_all add: io_only_def locked_def)
  have 2: "trace ?W = trace w \<and> console ?W = console w \<and> disk ?W = disk w \<and>
        buf (writers ?W a) = buf (writers w a) @ s @ newline"
    if "err (writers w a) = None" "length (s @ newline) \<le> defaultBufSize - length (buf (writers w a))"
  proof -
    from that out pre have "?W = set_writer a ((writers w a)\<lparr>buf := buf (writers w a) @ s @ newline\<rparr>) (locked w)"
      using log_Println_fits [of "locked w" ?L s] by (simp add: locked_def)
    then show ?thesis by (simp add: set_writer_def locked_def)
  qed
  from 1 2 show ?thesis by (simp add: stuck_with_line_def)
qed

lemma Time_Format_clock0 [simp]: "Time_Format (clock world0) = ''2024-03-09 07:05:00''"
  by (simp add: Time_Format_def world0_def appendInt_def digit_char_def digits.simps)

lemma mlog_world0:
  "mlog world0 = world0\<lparr>writers := (writers world0)(0 := \<lparr>buf = [], err = None, wr = Direct Stdout\<rparr>),
      next_writer := 1,
      lg := \<lparr>mu = Unlocked, logger = \<lparr>out = 0, prefix = [], flag = 0\<rparr>, bufWriter = Some 0,
            logLevel = LogLevelInfo, logFile = None\<rparr>\<rparr>"
  by (simp add: mlog_def New_v2_def bufio_NewWriter_def set_writer_def world0_def log_New_def)

lemma level_outside:
  "sint (l::8 word) < 0 \<or> 4 < sint l \<Longrightarrow> l \<noteq> 0 \<and> l \<noteq> 1 \<and> l \<noteq> 2 \<and> l \<noteq> 3 \<and> l \<noteq> 4"
  by auto

lemma Println_unlock:
  assumes "mu (lg w) = Unlocked"
  shows "io_only w (mu_Unlock (log_Println L s (locked w)))"
proof -
  have "io_only (locked w) (log_Println L s (locked w))" by (rule log_Println_frame)
  with assms show ?thesis
    by (simp add: io_only_def mu_Unlock_def locked_def)
qed

lemma Println_unlock_fits:
  assumes "mu (lg w) = Unlocked" and "wired w a"
    and "err (writers w a) = None"
    and "length (s @ newline) \<le> defaultBufSize - length (buf (writers w a))"
  shows "mu_Unlock (log_Println (logger (lg w)) s (locked w))
           = set_writer a ((writers w a)\<lparr>buf := buf (writers w a) @ s @ newline\<rparr>) w"
proof -
  let ?L = "logger (lg w)"
  from assms(2) have out: "out ?L = a" and pre: "prefix ?L = []" by (simp_all add: wired_def)
  from assms(3,4) out pre
  have "log_Println ?L s (locked w)
          = set_writer a ((writers w a)\<lparr>buf := buf (writers w a) @ s @ newline\<rparr>) (locked w)"
    using log_Println_fits [of "locked w" ?L s] by (simp add: locked_def)
  with assms(1) show ?thesis
    by (simp add: set_writer_def locked_def mu_Unlock_def)
qed

lemma returns_Println:
  assumes "mu (lg w) = Unlocked"
  shows "returns_after_writes w (Returns () (mu_Unlock (log_Println L s (locked w))))"
  using Println_unlock [OF assms] by (simp add: returns_after_writes_def)

lemma returns_same: "returns_after_writes w (Returns () w)"
  by (simp add: returns_after_writes_def io_only_refl)

lemma named_levels_not_fatal:
  "LogLevelDebug \<noteq> LogLevelFatal" "LogLevelInfo \<noteq> LogLevelFatal"
  "LogLevelWarning \<noteq> LogLevelFatal" "LogLevelError \<noteq> LogLevelFatal"
  by (simp_all add: LogLevelDebug_def LogLevelInfo_def LogLevelWarning_def LogLevelError_def
      LogLevelFatal_def)

lemma Log_v1_returns:
  "mu (lg w) = Unlocked \<Longrightarrow> lvl \<noteq> LogLevelFatal \<Longrightarrow> returns_after_writes w (Log_v1 Sprint lvl args w)"
  by (simp add: Log_v1_cases returns_Println returns_same)

lemma Log_v2_returns:
  "mu (lg w) = Unlocked \<Longrightarrow> lvl \<noteq> LogLevelFatal \<Longrightarrow> returns_after_writes w (Log_v2 Sprint lvl args w)"
  by (simp add: Log_v2_cases returns_Println returns_same)

lemma Logf_v1_returns:
  "mu (lg w) = Unlocked \<Longrightarrow> lvl \<noteq> LogLevelFatal \<Longrightarrow>
     returns_after_writes w (Logf_v1 Sprintf lvl format args w)"
  by (simp add: Logf_v1_cases returns_Println returns_same)

lemma Logf_v2_returns:
  "mu (lg w) = Unlocked \<Longrightarrow> lvl \<noteq> LogLevelFatal \<Longrightarrow>
     returns_after_writes w (Logf_v2 Sprintf format lvl args w)"
  by (simp add: Logf_v2_cases returns_Println returns_same)

lemma stream_contents_locked [simp]: "stream_contents (locked w) s = stream_contents w s"
  by (cases s) (simp_all add: locked_def contents_def)

lemma stream_contents_mu_Unlock [simp]: "stream_contents (mu_Unlock w) s = stream_contents w s"
  by (cases s) (simp_all add: mu_Unlock_def contents_def)

lemma Println_delivers:
  assumes "wired w a" and "plain_target (wr (writers w a))"
    and "err (writers (log_Println (logger (lg w)) s (locked w)) a) = None"
  shows "\<forall>t\<in>set (streams (wr (writers w a))).
           stream_contents (log_Println (logger (lg w)) s (locked w)) t
             @ buf (writers (log_Println (logger (lg w)) s (locked w)) a)
           = stream_contents w t @ buf (writers w a) @ s @ newline"
proof -
  let ?L = "logger (lg w)"
  from assms(1) have out: "out ?L = a" and pre: "prefix ?L = []" by (simp_all add: wired_def)
  obtain e w1 where bw: "bufio_Write a (s @ newline) (locked w) = (e, w1)"
    by (cases "bufio_Write a (s @ newline) (locked w)")
  then have W: "log_Println ?L s (locked w) = w1" using out pre by (simp add: log_Println_def)
  have wl: "writers (locked w) = writers w" by (simp add: locked_def)
  from bufio_Write_delivers [OF bw] assms(2,3) W wl show ?thesis by simp
qed

lemma emitted_Println:
  assumes "wired w a"
  shows "emitted w a (s @ newline) (Blocks (log_Println (logger (lg w)) s (locked w)) :: 'a outcome)"
    and "emitted w a (s @ newline)
           (Returns x (mu_Unlock (log_Println (logger (lg w)) s (locked w))) :: 'a outcome)"
proof -
  let ?L = "logger (lg w)"
  let ?W = "log_Println ?L s (locked w)"
  from assms have out: "out ?L = a" and pre: "prefix ?L = []" by (simp_all add: wired_def)
  have fit: "err (writers ?W a) = None \<and> buf (writers ?W a) = buf (writers w a) @ s @ newline \<and>
        trace ?W = trace w"
    if "err (writers w a) = None" "length (s @ newline) \<le> defaultBufSize - length (buf (writers w a))"
  proof -
    from that out pre have "?W = set_writer a ((writers w a)\<lparr>buf := buf (writers w a) @ s @ newline\<rparr>) (locked w)"
      using log_Println_fits [of "locked w" ?L s] by (simp add: locked_def)
    with that show ?thesis by (simp add: set_writer_def locked_def)
  qed
  have wu: "writers (mu_Unlock ?W) = writers ?W" "trace (mu_Unlock ?W) = trace ?W"
    by (simp_all add: mu_Unlock_def)
  show "emitted w a (s @ newline) (Blocks ?W :: 'a outcome)"
    using fit Println_delivers [OF assms] by (simp add: emitted_def)
  show "emitted w a (s @ newline) (Returns x (mu_Unlock ?W) :: 'a outcome)"
    using fit Println_delivers [OF assms] wu by (simp add: emitted_def)
qed

lemma level_order_total: "(a::LogLevel) <s b \<or> b \<le>s a"
  by (auto simp: word_sless_alt word_sle_eq)

lemma level_accept: "(b::LogLevel) \<le>s a \<longleftrightarrow> \<not> a <s b"
  by (auto simp: word_sless_alt word_sle_eq)

lemma level_names:
  "LogLevel_String LogLevelDebug = ''DEBUG''" "LogLevel_String LogLevelInfo = ''INFO''"
  "LogLevel_String LogLevelWarning = ''WARNING''" "LogLevel_String LogLevelError = ''ERROR''"
  "LogLevel_String LogLevelFatal = ''FATAL''"
  by (simp_all add: LogLevel_String_def LogLevelDebug_def LogLevelInfo_def LogLevelWarning_def
      LogLevelError_def LogLevelFatal_def)

lemma mlog_world0_facts:
  "mu (lg (mlog world0)) = Unlocked" "wired (mlog world0) 0"
  "logLevel (lg (mlog world0)) = LogLevelInfo" "logFile (lg (mlog world0)) = None"
  "writers (mlog world0) 0 = \<lparr>buf = [], err = None, wr = Direct Stdout\<rparr>"
  "console (mlog world0) = []" "trace (mlog world0) = []" "clock (mlog world0) = clock world0"
  "faults (mlog world0) = []"
  by (simp_all add: mlog_world0 wired_def) (simp_all add: world0_def)

lemma returns_with_line_Println:
  assumes "mu (lg w) = Unlocked" and "wired w a"
  shows "returns_with_line w a (s @ newline)
           (Returns () (mu_Unlock (log_Println (logger (lg w)) s (locked w))))"
proof -
  let ?W = "mu_Unlock (log_Println (logger (lg w)) s (locked w))"
  have 1: "io_only w ?W" by (rule Println_unlock [OF assms(1)])
  have 2: "trace ?W = trace w \<and> console ?W = console w \<and> disk ?W = disk w \<and>
        buf (writers ?W a) = buf (writers w a) @ s @ newline"
    if "err (writers w a) = None" "length (s @ newline) \<le> defaultBufSize - length (buf (writers w a))"
    using Println_unlock_fits [OF assms that] by (simp add: set_writer_def)
  from 1 2 show ?thesis by (simp add: returns_with_line_def)
qed

lemma SetLogLevel_unlocked:
  "mu (lg w) = Unlocked \<Longrightarrow> SetLogLevel l w = Returns () (w\<lparr>lg := (lg w)\<lparr>logLevel := l\<rparr>\<rparr>)"
  by (simp add: SetLogLevel_def mu_Lock_def mu_Unlock_def)

lemma digit_char_simps:
  "digit_char 0 = CHR ''0''" "d < 10 \<Longrightarrow> digit_char d \<in> set ''0123456789''"
proof -
  show "digit_char 0 = CHR ''0''" by (simp add: digit_char_def)
  assume "d < 10"
  then have "d \<in> {0,1,2,3,4,5,6,7,8,9}" by auto
  then show "digit_char d \<in> set ''0123456789''"
    by (auto simp: digit_char_def)
qed

lemma digit_char_is_digit: "digit_char d \<in> set ''0123456789''"
proof -
  have "d mod 10 < 10" by simp
  then have "digit_char (d mod 10) \<in> set ''0123456789''" by (rule digit_char_simps(2))
  then show ?thesis by (simp add: digit_char_def)
qed

lemma digits_are_digits: "set (digits n) \<subseteq> set ''0123456789''"
proof (induction n rule: digits.induct)
  case (1 n)
  show ?case
  proof (cases "n < 10")
    case True
    with digit_char_is_digit [of n] show ?thesis by (subst digits.simps) simp
  next
    case False
    with "1.IH" digit_char_is_digit [of "n mod 10"] show ?thesis
      by (subst digits.simps) simp
  qed
qed

lemma digits_1: "n < 10 \<Longrightarrow> digits n = [digit_char n]"
  by (subst digits.simps) simp

lemma digits_2: "10 \<le> n \<Longrightarrow> n < 100 \<Longrightarrow> digits n = [digit_char (n div 10), digit_char (n mod 10)]"
  by (subst digits.simps) (simp add: digits_1)

lemma digits_3:
  assumes "100 \<le> n" and "n < 1000"
  shows "digits n = [digit_char (n div 100), digit_char (n div 10 mod 10), digit_char (n mod 10)]"
proof -
  have d: "n div 10 div 10 = n div 100" by (simp add: div_mult2_eq [symmetric])
  from assms have "10 \<le> n div 10" "n div 10 < 100" by simp_all
  from digits_2 [OF this] d assms show ?thesis
    by (subst digits.simps) simp
qed

lemma digits_4:
  "1000 \<le> n \<Longrightarrow> n < 10000 \<Longrightarrow>
     digits n = [digit_char (n div 1000), digit_char (n div 100 mod 10),
                 digit_char (n div 10 mod 10), digit_char (n mod 10)]"
proof -
  assume n: "1000 \<le> n" "n < 10000"
  have d: "n div 10 div 100 = n div 1000" "n div 10 div 10 = n div 100"
    by (simp_all add: div_mult2_eq [symmetric])
  from n have "100 \<le> n div 10" "n div 10 < 1000" by simp_all
  from digits_3 [OF this] d n show ?thesis
    by (subst digits.simps) simp
qed

lemma replicate_small:
  "replicate 1 c = [c]" "replicate 2 c = [c, c]" "replicate 3 c = [c, c, c]"
  by (simp_all add: numeral_2_eq_2 numeral_3_eq_3)

lemma appendInt_2: "n < 100 \<Longrightarrow> appendInt n 2 = [digit_char (n div 10), digit_char (n mod 10)]"
  by (cases "n < 10") (simp_all add: appendInt_def digits_1 digits_2 digit_char_def)

lemma appendInt_4:
  assumes n: "n < 10000"
  shows "appendInt n 4 = [digit_char (n div 1000), digit_char (n div 100 mod 10),
                          digit_char (n div 10 mod 10), digit_char (n mod 10)]"
proof -
  have z: "digit_char 0 = CHR ''0''" by (simp add: digit_char_def)
  consider "n < 10" | "10 \<le> n" "n < 100" | "100 \<le> n" "n < 1000" | "1000 \<le> n"
    by linarith
  then show ?thesis
  proof cases
    case 1
    then have "n div 1000 = 0" "n div 100 = 0" "n div 10 = 0" by simp_all
    with 1 show ?thesis by (simp add: appendInt_def digits_1 z replicate_small)
  next
    case 2
    then have "n div 1000 = 0" "n div 100 = 0" "n div 10 mod 10 = n div 10" by simp_all
    with 2 show ?thesis by (simp add: appendInt_def digits_2 z replicate_small)
  next
    case 3
    then have "n div 1000 = 0" "n div 100 mod 10 = n div 100" by simp_all
    with 3 show ?thesis by (simp add: appendInt_def digits_3 z replicate_small)
  next
    case 4
    with n show ?thesis by (simp add: appendInt_def digits_4)
  qed
qed

lemma Time_Format_shape:
  assumes "calendar t"
  shows "Time_Format t =
     [digit_char (t_year t div 1000), digit_char (t_year t div 100 mod 10),
      digit_char (t_year t div 10 mod 10), digit_char (t_year t mod 10), CHR ''-'',
      digit_char (t_month t div 10), digit_char (t_month t mod 10), CHR ''-'',
      digit_char (t_day t div 10), digit_char (t_day t mod 10), CHR '' '',
      digit_char (t_hour t div 10), digit_char (t_hour t mod 10), CHR '':'',
      digit_char (t_minute t div 10), digit_char (t_minute t mod 10), CHR '':'',
      digit_char (t_second t div 10), digit_char (t_second t mod 10)]"
  using assms by (simp add: Time_Format_def calendar_def appendInt_2 appendInt_4)

lemma digits_no_newline: "CHR 0x0A \<notin> set (digits n)"
proof
  assume "CHR 0x0A \<in> set (digits n)"
  with digits_are_digits [of n] have "CHR 0x0A \<in> set ''0123456789''" by blast
  then show False by simp
qed

lemma appendInt_no_newline: "CHR 0x0A \<notin> set (appendInt n k)"
  using digits_no_newline [of n] by (simp add: appendInt_def)

lemma Time_Format_no_newline: "CHR 0x0A \<notin> set (Time_Format t)"
  by (simp add: Time_Format_def appendInt_no_newline)

lemma LogLevel_String_no_newline: "CHR 0x0A \<notin> set (LogLevel_String l)"
  by (simp add: LogLevel_String_def)

lemma one_terminator:
  assumes "CHR 0x0A \<notin> set msg"
  shows "count_list (bracketed (Time_Format t) (LogLevel_String l) msg @ newline) (CHR 0x0A) = 1"
proof -
  have "count_list (bracketed (Time_Format t) (LogLevel_String l) msg) (CHR 0x0A) = 0"
    using assms Time_Format_no_newline [of t] LogLevel_String_no_newline [of l]
    by (simp add: bracketed_def count_list_0_iff)
  then show ?thesis by (simp add: newline_def)
qed

lemma bracketed_unfold:
  "bracketed ts name msg @ newline = ''['' @ ts @ ''] ['' @ name @ ''] '' @ msg @ [CHR 0x0A]"
  by (simp add: bracketed_def newline_def)

lemma emitted_accepted:
  assumes "mu (lg w) = Unlocked" and "wired w a" and "logLevel (lg w) \<le>s lvl"
  shows "emitted w a (formatMessage Sprint lvl args w @ newline) (Log_v1 Sprint lvl args w)"
    and "emitted w a (formatMessage Sprint lvl args w @ newline) (Log_v2 Sprint lvl args w)"
    and "emitted w a (formatMessagef Sprintf format lvl args w @ newline)
           (Logf_v1 Sprintf lvl format args w)"
    and "emitted w a (formatMessagef Sprintf format lvl args w @ newline)
           (Logf_v2 Sprintf format lvl args w)"
  using assms(3)
  by (simp_all add: level_accept Log_v1_cases [OF assms(1)] Log_v2_cases [OF assms(1)]
      Logf_v1_cases [OF assms(1)] Logf_v2_cases [OF assms(1)] emitted_Println [OF assms(2)])

lemma Sprintf_plain_cart:
  "Sprintf_plain ''%s has %d items'' [GoString ''cart'', GoInt 3] = Some ''cart has 3 items''"
  by (simp add: render_int_def digits.simps digit_char_def)

lemma bufio_Flush_lg:
  "lg (snd (bufio_Flush a w)) = lg w \<and> files (snd (bufio_Flush a w)) = files w \<and>
   next_file (snd (bufio_Flush a w)) = next_file w \<and> next_writer (snd (bufio_Flush a w)) = next_writer w"
proof -
  obtain e w1 where f: "bufio_Flush a w = (e, w1)" by (cases "bufio_Flush a w")
  from bufio_Flush_frame [OF f] f show ?thesis by (simp add: io_only_def)
qed

lemma File_Close_lg:
  "lg (snd (File_Close fd w)) = lg w \<and> next_file (snd (File_Close fd w)) = next_file w \<and>
   next_writer (snd (File_Close fd w)) = next_writer w \<and>
   f_closed (files (snd (File_Close fd w)) fd)"
  by (simp add: File_Close_def syscall_done_def)

lemma SetOutput_v2_success:
  assumes "mu (lg w) = Unlocked" and "SetOutput_v2 path w = Returns None w1"
  shows "\<exists>a fd. file_sink w1 a fd path (MultiWriter [File fd, Stdout]) \<and>
           buf (writers w1 a) = [] \<and> err (writers w1 a) = None \<and>
           logLevel (lg w1) = logLevel (lg w)"
proof -
  let ?w2 = "case bufWriter (lg (locked w)) of None \<Rightarrow> locked w
             | Some a \<Rightarrow> snd (bufio_Flush a (locked w))"
  let ?w3 = "case logFile (lg ?w2) of None \<Rightarrow> ?w2 | Some old \<Rightarrow> snd (File_Close old ?w2)"
  have lg2: "lg ?w2 = lg (locked w)"
    by (simp add: bufio_Flush_lg split: option.splits)
  have lg3: "lg ?w3 = lg (locked w)"
    using lg2 by (simp add: File_Close_lg split: option.splits)
  obtain r w4 where op: "os_OpenFile path ?w3 = (r, w4)" by (cases "os_OpenFile path ?w3")
  from assms(2) mu_Lock_unlocked [OF assms(1)] op obtain nf where r: "r = Inr nf"
    by (cases r) (auto simp: SetOutput_v2_def Let_def)
  from op r have w4: "nf = next_file ?w3" "\<not> env_fails ?w3"
    "w4 = (syscall_done (SysOpen path) ?w3)
        \<lparr>disk := (disk (syscall_done (SysOpen path) ?w3))(path := Some (contents (syscall_done (SysOpen path) ?w3) path)),
         files := (files (syscall_done (SysOpen path) ?w3))(next_file ?w3 := \<lparr>f_name = path, f_closed = False\<rparr>),
         next_file := Suc (next_file ?w3)\<rparr>"
    by (auto simp: os_OpenFile_def Let_def syscall_done_def split: if_splits)
  have lg4: "lg w4 = lg (locked w)" using w4(3) lg3 by (simp add: syscall_done_def)
  from assms(2) mu_Lock_unlocked [OF assms(1)] op r
  have w1: "w1 = mu_Unlock
      ((snd (bufio_NewWriter (MultiWriter [File nf, Stdout]) w4))
         \<lparr>lg := (lg (snd (bufio_NewWriter (MultiWriter [File nf, Stdout]) w4)))
                 \<lparr>logger := log_New (next_writer w4) [] 0,
                  bufWriter := Some (next_writer w4), logFile := Some nf\<rparr>\<rparr>)"
    by (simp add: SetOutput_v2_def Let_def bufio_NewWriter_def split: prod.splits)
  have "file_sink w1 (next_writer w4) nf path (MultiWriter [File nf, Stdout]) \<and>
           buf (writers w1 (next_writer w4)) = [] \<and> err (writers w1 (next_writer w4)) = None \<and>
           logLevel (lg w1) = logLevel (lg w)"
    unfolding w1 using lg4 w4
    by (simp add: file_sink_def wired_def mu_Unlock_def bufio_NewWriter_def set_writer_def
        log_New_def locked_def)
  then show ?thesis by blast
qed

lemma SetOutput_v1_success:
  assumes "mu (lg w) = Unlocked" and "prefix (logger (lg w)) = []" and "allocated w"
    and "SetOutput_v1 path w = Returns None w1"
  shows "\<exists>a fd. file_sink w1 a fd path (Direct (File fd)) \<and>
           buf (writers w1 a) = [] \<and> err (writers w1 a) = None \<and>
           logLevel (lg w1) = logLevel (lg w)"
proof -
  let ?w2 = "case bufWriter (lg (locked w)) of None \<Rightarrow> locked w
             | Some a \<Rightarrow> snd (bufio_Flush a (locked w))"
  have lg2: "lg ?w2 = lg (locked w)"
    by (simp add: bufio_Flush_lg split: option.splits)
  obtain r w3 where op: "os_OpenFile path ?w2 = (r, w3)" by (cases "os_OpenFile path ?w2")
  from assms(4) mu_Lock_unlocked [OF assms(1)] op obtain nf where r: "r = Inr nf"
    by (cases r) (auto simp: SetOutput_v1_def Let_def)
  from op r have w3: "nf = next_file ?w2"
    "w3 = (syscall_done (SysOpen path) ?w2)
        \<lparr>disk := (disk (syscall_done (SysOpen path) ?w2))(path := Some (contents (syscall_done (SysOpen path) ?w2) path)),
         files := (files (syscall_done (SysOpen path) ?w2))(next_file ?w2 := \<lparr>f_name = path, f_closed = False\<rparr>),
         next_file := Suc (next_file ?w2)\<rparr>"
    by (auto simp: os_OpenFile_def Let_def syscall_done_def split: if_splits)
  have lg3: "lg w3 = lg (locked w)" using w3(2) lg2 by (simp add: syscall_done_def)
  have f3: "files w3 nf = \<lparr>f_name = path, f_closed = False\<rparr>" using w3 by simp
  let ?w4 = "case logFile (lg w3) of None \<Rightarrow> w3 | Some old \<Rightarrow> snd (File_Close old w3)"
  have lg4: "lg ?w4 = lg (locked w)" using lg3 by (simp add: File_Close_lg split: option.splits)
  have f4: "f_name (files ?w4 nf) = path"
    using f3 by (simp add: File_Close_def syscall_done_def split: option.splits)
  have nf2: "next_file ?w2 = next_file w"
    by (simp add: bufio_Flush_lg locked_def split: option.splits)
  have fresh: "logFile (lg w3) \<noteq> Some nf"
    using assms(3) lg3 w3(1) nf2 by (auto simp: allocated_def locked_def split: option.splits)
  have open4: "\<not> f_closed (files ?w4 nf)"
    using f3 fresh by (auto simp: File_Close_def syscall_done_def split: option.splits)
  from assms(4) mu_Lock_unlocked [OF assms(1)] op r
  have w1: "w1 = mu_Unlock
      ((snd (bufio_NewWriter (Direct (File nf)) ?w4))
         \<lparr>lg := (lg (snd (bufio_NewWriter (Direct (File nf)) ?w4)))
                 \<lparr>logger := log_SetOutput (logger (lg (snd (bufio_NewWriter (Direct (File nf)) ?w4))))
                              (next_writer ?w4),
                  bufWriter := Some (next_writer ?w4), logFile := Some nf\<rparr>\<rparr>)"
    by (simp add: SetOutput_v1_def Let_def bufio_NewWriter_def split: prod.splits)
  have "file_sink w1 (next_writer ?w4) nf path (Direct (File nf)) \<and>
           buf (writers w1 (next_writer ?w4)) = [] \<and> err (writers w1 (next_writer ?w4)) = None \<and>
           logLevel (lg w1) = logLevel (lg w)"
    unfolding w1 using lg4 f4 open4 assms(2)
    by (simp add: file_sink_def wired_def mu_Unlock_def bufio_NewWriter_def set_writer_def
        log_SetOutput_def locked_def)
  then show ?thesis by blast
qed

lemma bufio_Flush_file_only:
  "wr (writers w a) = Direct (File fd) \<Longrightarrow> bufio_Flush a w = (e, w1) \<Longrightarrow> console w1 = console w"
  by (auto simp: bufio_Flush_def Let_def set_writer_def File_Write_def syscall_done_def
        split: if_splits prod.splits option.splits)

lemma bufio_Write_file_only:
  "wr (writers w a) = Direct (File fd) \<Longrightarrow> bufio_Write a p w = (e, w1) \<Longrightarrow> console w1 = console w"
proof (induction a p w arbitrary: e w1 rule: bufio_Write.induct)
  case (1 a p w)
  let ?b = "writers w a"
  let ?avail = "defaultBufSize - length (buf ?b)"
  note t = \<open>wr ?b = Direct (File fd)\<close>
  show ?case
  proof (cases "length p > ?avail \<and> err ?b = None")
    case False
    with "1.prems"(2) show ?thesis
      by (subst (asm) bufio_Write.simps) (auto simp: Let_def set_writer_def split: if_splits)
  next
    case big: True
    show ?thesis
    proof (cases "buf ?b = []")
      case True
      with big "1.prems"(2) t show ?thesis
        by (subst (asm) bufio_Write.simps)
           (auto simp: Let_def set_writer_def File_Write_def syscall_done_def
              split: prod.splits option.splits if_splits)
    next
      case False
      let ?w0 = "set_writer a (?b\<lparr>buf := buf ?b @ take ?avail p\<rparr>) w"
      obtain e0 w0 where fl: "bufio_Flush a ?w0 = (e0, w0)" by (cases "bufio_Flush a ?w0")
      have wr0: "wr (writers ?w0 a) = Direct (File fd)" using t by (simp add: set_writer_def)
      from bufio_Flush_file_only [OF wr0 fl] have c0: "console w0 = console w"
        by (simp add: set_writer_def)
      from bufio_Flush_frame [OF fl] wr0 have wrw0: "wr (writers w0 a) = Direct (File fd)" by simp
      show ?thesis
      proof (cases e0)
        case None
        with big False fl "1.prems"(2) have rec: "bufio_Write a (drop ?avail p) w0 = (e, w1)"
          by (subst (asm) bufio_Write.simps) (simp add: Let_def)
        from "1.IH" [OF refl refl big False fl [symmetric] None wrw0 rec] c0 show ?thesis by simp
      next
        case (Some x)
        with big False fl "1.prems"(2) have "w1 = w0"
          by (subst (asm) bufio_Write.simps) (simp add: Let_def)
        with c0 show ?thesis by simp
      qed
    qed
  qed
qed

lemma relock_Println:
  "locked (mu_Unlock (log_Println L s (locked u))) = log_Println L s (locked u)"
proof -
  have "lg (log_Println L s (locked u)) = (lg u)\<lparr>mu := Locked\<rparr>"
    by (simp add: log_Println_lg locked_def)
  then show ?thesis by (simp add: locked_def mu_Unlock_def)
qed

lemma Flush_v2_cases:
  assumes "mu (lg w) = Unlocked" and "bufWriter (lg w) = Some a"
    and "bufio_Flush a (locked w) = (e, w1)"
  shows "Flush_v2 w =
     (case e of
        Some x \<Rightarrow> Returns (Some x) (mu_Unlock w1)
      | None \<Rightarrow>
          (case logFile (lg w) of
             Some fd \<Rightarrow> Returns (fst (File_Sync fd w1)) (mu_Unlock (snd (File_Sync fd w1)))
           | None \<Rightarrow> Returns None (mu_Unlock w1)))"
proof -
  from bufio_Flush_frame [OF assms(3)] have "lg w1 = lg (locked w)" by (simp add: io_only_def)
  then have lf: "logFile (lg w1) = logFile (lg w)" by (simp add: locked_def)
  have bw: "bufWriter (lg (locked w)) = Some a" using assms(2) by (simp add: locked_def)
  show ?thesis
    using assms(3) lf bw
    by (simp add: Flush_v2_def mu_Lock_unlocked [OF assms(1)] split: option.splits prod.splits)
qed

lemma Flush_v1_cases:
  assumes "mu (lg w) = Unlocked" and "bufWriter (lg w) = Some a"
    and "bufio_Flush a (locked w) = (e, w1)"
  shows "Flush_v1 w = Returns e (mu_Unlock w1)"
proof -
  have bw: "bufWriter (lg (locked w)) = Some a" using assms(2) by (simp add: locked_def)
  show ?thesis
    using assms(3) bw by (simp add: Flush_v1_def mu_Lock_unlocked [OF assms(1)])
qed

lemma bufio_Flush_None_err: "bufio_Flush a w = (None, w1) \<Longrightarrow> err (writers w a) = None"
  by (auto simp: bufio_Flush_def Let_def split: if_splits)

lemma log_Println_wr: "wr (writers (log_Println L s w) (out L)) = wr (writers w (out L))"
proof -
  obtain e w1 where bw: "bufio_Write (out L) (prefix L @ s @ newline) w = (e, w1)"
    by (cases "bufio_Write (out L) (prefix L @ s @ newline) w")
  with bufio_Write_frame [OF bw] show ?thesis by (simp add: log_Println_def)
qed

lemma write_flush_generic:
  assumes fs: "file_sink u a fd path T" and pt: "plain_target T"
    and fl: "bufio_Flush a (log_Println (logger (lg u)) s (locked u)) = (None, w4)"
  shows "(\<forall>t\<in>set (streams T).
            stream_contents w4 t = stream_contents u t @ buf (writers u a) @ s @ newline) \<and>
         buf (writers w4 a) = [] \<and> err (writers w4 a) = None \<and>
         lg w4 = lg (locked u) \<and> files w4 = files u \<and> wr (writers w4 a) = T"
proof -
  let ?L = "logger (lg u)"
  let ?W = "log_Println ?L s (locked u)"
  from fs have wd: "wired u a" and T: "wr (writers u a) = T" by (simp_all add: file_sink_def)
  from wd have out: "out ?L = a" by (simp add: wired_def)
  have frW: "io_only (locked u) ?W" by (rule log_Println_frame)
  have wrW: "wr (writers ?W a) = T"
    using log_Println_wr [of ?L s "locked u"] out T by (simp add: locked_def)
  from bufio_Flush_None_err [OF fl] have eW: "err (writers ?W a) = None" .
  from Println_delivers [OF wd _ eW] pt T
  have d1: "\<forall>t\<in>set (streams T).
      stream_contents ?W t @ buf (writers ?W a) = stream_contents u t @ buf (writers u a) @ s @ newline"
    by simp
  from bufio_Flush_delivers [OF fl] pt wrW
  have d2: "\<forall>t\<in>set (streams T). stream_contents w4 t = stream_contents ?W t @ buf (writers ?W a)"
    and b4: "buf (writers w4 a) = []" and e4: "err (writers w4 a) = None"
    by simp_all
  from bufio_Flush_frame [OF fl] frW wrW
  have fr4: "lg w4 = lg (locked u)" "files w4 = files u" "wr (writers w4 a) = T"
    by (simp_all add: io_only_def locked_def)
  from d1 d2 b4 e4 fr4 show ?thesis by simp
qed

lemma tee_write_flush:
  assumes fs: "file_sink u a fd path (MultiWriter [File fd, Stdout])"
    and fl: "Flush_v2 (mu_Unlock (log_Println (logger (lg u)) s (locked u))) = Returns None u3"
  shows "contents u3 path = contents u path @ buf (writers u a) @ s @ newline \<and>
         console u3 = console u @ buf (writers u a) @ s @ newline \<and>
         file_sink u3 a fd path (MultiWriter [File fd, Stdout]) \<and> buf (writers u3 a) = []"
proof -
  let ?W = "log_Println (logger (lg u)) s (locked u)"
  let ?u2 = "mu_Unlock ?W"
  from fs have mu: "mu (lg u) = Unlocked" and wd: "wired u a" and lf: "logFile (lg u) = Some fd"
    and nm: "f_name (files u fd) = path" and op: "\<not> f_closed (files u fd)"
    by (simp_all add: file_sink_def)
  have lgW: "lg ?W = lg (locked u)" by (simp add: log_Println_lg)
  have mu2: "mu (lg ?u2) = Unlocked" by (simp add: mu_Unlock_def)
  have bw2: "bufWriter (lg ?u2) = Some a" using wd lgW by (simp add: mu_Unlock_def wired_def locked_def)
  have lf2: "logFile (lg ?u2) = Some fd" using lf lgW by (simp add: mu_Unlock_def locked_def)
  obtain e w4 where bf: "bufio_Flush a ?W = (e, w4)" by (cases "bufio_Flush a ?W")
  then have bf2: "bufio_Flush a (locked ?u2) = (e, w4)" by (simp add: relock_Println)
  from Flush_v2_cases [OF mu2 bw2 bf2] fl lf2
  have e: "e = None" and sy: "fst (File_Sync fd w4) = None"
    and u3: "u3 = mu_Unlock (snd (File_Sync fd w4))"
    by (auto split: option.splits)
  from write_flush_generic [OF fs _ bf [unfolded e]]
  have d: "stream_contents w4 (File fd) = stream_contents u (File fd) @ buf (writers u a) @ s @ newline"
    "stream_contents w4 Stdout = stream_contents u Stdout @ buf (writers u a) @ s @ newline"
    and r: "buf (writers w4 a) = []" "lg w4 = lg (locked u)" "files w4 = files u"
      "wr (writers w4 a) = MultiWriter [File fd, Stdout]"
    by auto
  from sy op r(3) have w5: "snd (File_Sync fd w4) = syscall_done (SysSync fd) w4"
    by (simp add: File_Sync_def)
  from d r nm op mu wd lf show ?thesis
    unfolding u3 w5
    by (simp add: syscall_done_def mu_Unlock_def contents_def file_sink_def wired_def locked_def)
qed

lemma file_write_flush:
  assumes fs: "file_sink u a fd path (Direct (File fd))"
    and fl: "Flush_v1 (mu_Unlock (log_Println (logger (lg u)) s (locked u))) = Returns None u3"
  shows "contents u3 path = contents u path @ buf (writers u a) @ s @ newline \<and>
         console u3 = console u \<and>
         file_sink u3 a fd path (Direct (File fd)) \<and> buf (writers u3 a) = []"
proof -
  let ?L = "logger (lg u)"
  let ?W = "log_Println ?L s (locked u)"
  let ?u2 = "mu_Unlock ?W"
  from fs have mu: "mu (lg u) = Unlocked" and wd: "wired u a" and lf: "logFile (lg u) = Some fd"
    and nm: "f_name (files u fd) = path" and op: "\<not> f_closed (files u fd)"
    and T: "wr (writers u a) = Direct (File fd)"
    by (simp_all add: file_sink_def)
  from wd have out: "out ?L = a" by (simp add: wired_def)
  have lgW: "lg ?W = lg (locked u)" by (simp add: log_Println_lg)
  have mu2: "mu (lg ?u2) = Unlocked" by (simp add: mu_Unlock_def)
  have bw2: "bufWriter (lg ?u2) = Some a" using wd lgW by (simp add: mu_Unlock_def wired_def locked_def)
  obtain e w4 where bf: "bufio_Flush a ?W = (e, w4)" by (cases "bufio_Flush a ?W")
  then have bf2: "bufio_Flush a (locked ?u2) = (e, w4)" by (simp add: relock_Println)
  from Flush_v1_cases [OF mu2 bw2 bf2] fl
  have e: "e = None" and u3: "u3 = mu_Unlock w4" by simp_all
  from write_flush_generic [OF fs _ bf [unfolded e]]
  have d: "stream_contents w4 (File fd) = stream_contents u (File fd) @ buf (writers u a) @ s @ newline"
    and r: "buf (writers w4 a) = []" "lg w4 = lg (locked u)" "files w4 = files u"
      "wr (writers w4 a) = Direct (File fd)"
    by auto
  obtain e1 w1 where bwr: "bufio_Write a (prefix ?L @ s @ newline) (locked u) = (e1, w1)"
    by (cases "bufio_Write a (prefix ?L @ s @ newline) (locked u)")
  have "wr (writers (locked u) a) = Direct (File fd)" using T by (simp add: locked_def)
  from bufio_Write_file_only [OF this bwr] bwr out
  have cW: "console ?W = console u" by (simp add: log_Println_def locked_def)
  have "wr (writers ?W a) = Direct (File fd)"
    using log_Println_wr [of ?L s "locked u"] out T by (simp add: locked_def)
  from bufio_Flush_file_only [OF this bf] cW have c4: "console w4 = console u" by simp
  from d r c4 nm op mu wd lf show ?thesis
    unfolding u3
    by (simp add: mu_Unlock_def contents_def file_sink_def wired_def locked_def)
qed

lemmas eval_defs = SetOutput_v2_def SetOutput_v1_def mu_Lock_def mu_Unlock_def bufio_Flush_def Let_def
      os_OpenFile_def env_fails_def syscall_done_def contents_def bufio_NewWriter_def set_writer_def
      log_New_def log_SetOutput_def File_Close_def File_Sync_def File_Write_def Stdout_Write_def
      Flush_v2_def Flush_v1_def Close_v2_def mu_RLock_def mu_RUnlock_def log_Println_def
      Log_v2_def Log_v1_def Logf_v2_def Logf_v1_def formatMessage_def formatMessagef_def
      bracketed_def newline_def defaultBufSize_def word_sless_alt
      LogLevelDebug_def LogLevelInfo_def LogLevelWarning_def LogLevelError_def LogLevelFatal_def
      LogLevel_String_def bufio_Write.simps mlog_SetOutput_def mlog_Info_def Info_v2_def Info_v1_def mlog_Flush_def

lemma world_redirected_eq:
  "world_redirected =
     \<lparr>console = [], disk = (\<lambda>path. None)(''app.log'' := Some []),
      files = (\<lambda>fd. \<lparr>f_name = [], f_closed = True\<rparr>)
                (0 := \<lparr>f_name = ''app.log'', f_closed = False\<rparr>),
      next_file = 1,
      writers = (\<lambda>a. \<lparr>buf = [], err = None, wr = Direct Stdout\<rparr>)
                (1 := \<lparr>buf = [], err = None, wr = MultiWriter [File 0, Stdout]\<rparr>),
      next_writer = 2, faults = [], trace = [SysOpen ''app.log''],
      clock = clock world0,
      lg = \<lparr>mu = Unlocked, logger = \<lparr>out = 1, prefix = [], flag = 0\<rparr>, bufWriter = Some 1,
            logLevel = LogLevelInfo, logFile = Some 0\<rparr>\<rparr>"
  unfolding world_redirected_def
  apply (simp add: mlog_world0)
  apply (simp add: eval_defs world0_def fun_eq_iff)
  done

lemma world_redirected_v1_eq:
  "world_redirected_v1 =
     \<lparr>console = [], disk = (\<lambda>path. None)(''app.log'' := Some []),
      files = (\<lambda>fd. \<lparr>f_name = [], f_closed = True\<rparr>)
                (0 := \<lparr>f_name = ''app.log'', f_closed = False\<rparr>),
      next_file = 1,
      writers = (\<lambda>a. \<lparr>buf = [], err = None, wr = Direct Stdout\<rparr>)
                (1 := \<lparr>buf = [], err = None, wr = Direct (File 0)\<rparr>),
      next_writer = 2, faults = [], trace = [SysOpen ''app.log''],
      clock = clock world0,
      lg = \<lparr>mu = Unlocked, logger = \<lparr>out = 1, prefix = [], flag = Lmsgprefix\<rparr>,
            bufWriter = Some 1, logLevel = LogLevelInfo, logFile = Some 0\<rparr>\<rparr>"
  unfolding world_redirected_v1_def
  apply (simp add: New_v1_def bufio_NewWriter_def set_writer_def log_New_def world0_def)
  apply (simp add: eval_defs fun_eq_iff)
  done

lemma SetOutput_v1_world0:
  "SetOutput_v1 ''app.log'' (New_v1 world0) = Returns None world_redirected_v1"
  unfolding world_redirected_v1_def
  apply (simp add: New_v1_def bufio_NewWriter_def set_writer_def log_New_def world0_def)
  apply (simp add: eval_defs)
  done

lemma SetOutput_v2_world0:
  "mlog_SetOutput ''app.log'' (mlog world0) = Returns None world_redirected"
  unfolding world_redirected_def
  apply (simp add: mlog_world0)
  apply (simp add: eval_defs world0_def)
  done

lemma Flush_buffer_step_frame:
  assumes "mu (lg w) = Unlocked" and "bufio_Flush a (locked w) = (e, w1)"
  shows "io_only w (mu_Unlock w1)"
proof -
  from bufio_Flush_frame [OF assms(2)] have "io_only (locked w) w1" by simp
  with assms(1) show ?thesis by (simp add: io_only_def mu_Unlock_def locked_def)
qed

lemma world_pending_eq:
  "world_pending =
     \<lparr>console = [], disk = (\<lambda>path. None)(''app.log'' := Some []),
      files = (\<lambda>fd. \<lparr>f_name = [], f_closed = True\<rparr>)
                (0 := \<lparr>f_name = ''app.log'', f_closed = False\<rparr>),
      next_file = 1,
      writers = (\<lambda>a. \<lparr>buf = [], err = None, wr = Direct Stdout\<rparr>)
                (1 := \<lparr>buf = ''[2024-03-09 07:05:00] [INFO] up'' @ newline, err = None,
                       wr = MultiWriter [File 0, Stdout]\<rparr>),
      next_writer = 2, faults = [True], trace = [SysOpen ''app.log''],
      clock = clock world0,
      lg = \<lparr>mu = Unlocked, logger = \<lparr>out = 1, prefix = [], flag = 0\<rparr>, bufWriter = Some 1,
            logLevel = LogLevelInfo, logFile = Some 0\<rparr>\<rparr>"
  unfolding world_pending_def
  apply (simp add: world_redirected_eq)
  apply (simp add: eval_defs fun_eq_iff)
  done

lemma closed_tee_Flush:
  assumes "wr (writers u a) = MultiWriter [File fd, Stdout]" and "f_closed (files u fd)"
    and "bufio_Flush a u = (e, u1)"
  shows "console u1 = console u \<and> disk u1 = disk u \<and> trace u1 = trace u \<and> files u1 = files u \<and>
         lg u1 = lg u \<and>
         (buf (writers u a) \<noteq> [] \<or> err (writers u a) \<noteq> None \<longrightarrow> e \<noteq> None)"
  using assms
  apply (auto simp: bufio_Flush_def Let_def set_writer_def File_Write_def
        split: if_splits prod.splits option.splits)
  apply metis+
  done

lemma closed_tee_Write:
  assumes "wr (writers u a) = MultiWriter [File fd, Stdout]" and "f_closed (files u fd)"
    and "p \<noteq> []" and "bufio_Write a p u = (e, u1)"
  shows "console u1 = console u \<and> disk u1 = disk u \<and> trace u1 = trace u \<and> files u1 = files u \<and>
         wr (writers u1 a) = MultiWriter [File fd, Stdout] \<and>
         (buf (writers u1 a) \<noteq> [] \<or> err (writers u1 a) \<noteq> None)"
  using assms
  apply (subst (asm) bufio_Write.simps)
  apply (auto simp: Let_def set_writer_def File_Write_def bufio_Flush_def
        split: if_splits prod.splits option.splits)
  apply metis+
  done

lemma closed_tee_line_lost:
  assumes wd: "wired u a" and mu: "mu (lg u) = Unlocked"
    and t: "wr (writers u a) = MultiWriter [File fd, Stdout]" and cl: "f_closed (files u fd)"
  shows "\<exists>e' u3. Flush_v2 (mu_Unlock (log_Println (logger (lg u)) s (locked u))) = Returns (Some e') u3
           \<and> console u3 = console u \<and> disk u3 = disk u"
proof -
  let ?L = "logger (lg u)"
  let ?W = "log_Println ?L s (locked u)"
  let ?u2 = "mu_Unlock ?W"
  from wd have out: "out ?L = a" and pre: "prefix ?L = []" by (simp_all add: wired_def)
  obtain e1 w1 where bw: "bufio_Write a (s @ newline) (locked u) = (e1, w1)"
    by (cases "bufio_Write a (s @ newline) (locked u)")
  then have W: "?W = w1" using out pre by (simp add: log_Println_def)
  have tl: "wr (writers (locked u) a) = MultiWriter [File fd, Stdout]" "f_closed (files (locked u) fd)"
    using t cl by (simp_all add: locked_def)
  have ne: "s @ newline \<noteq> []" by (simp add: newline_def)
  from closed_tee_Write [OF tl ne bw] W
  have w1: "console ?W = console u" "disk ?W = disk u" "files ?W = files u"
    "wr (writers ?W a) = MultiWriter [File fd, Stdout]"
    "buf (writers ?W a) \<noteq> [] \<or> err (writers ?W a) \<noteq> None"
    by (simp_all add: locked_def)
  have lgW: "lg ?W = lg (locked u)" by (simp add: log_Println_lg)
  have mu2: "mu (lg ?u2) = Unlocked" by (simp add: mu_Unlock_def)
  have bw2: "bufWriter (lg ?u2) = Some a" using wd lgW by (simp add: mu_Unlock_def wired_def locked_def)
  obtain e w4 where bf: "bufio_Flush a ?W = (e, w4)" by (cases "bufio_Flush a ?W")
  then have bf2: "bufio_Flush a (locked ?u2) = (e, w4)" by (simp add: relock_Println)
  have clW: "f_closed (files ?W fd)" using w1(3) cl by simp
  from closed_tee_Flush [OF w1(4) clW bf] w1(5)
  have r: "console w4 = console ?W" "disk w4 = disk ?W" "e \<noteq> None" by simp_all
  then obtain e' where e': "e = Some e'" by (cases e) simp_all
  from Flush_v2_cases [OF mu2 bw2 bf2] e'
  have "Flush_v2 ?u2 = Returns (Some e') (mu_Unlock w4)" by simp
  moreover have "console (mu_Unlock w4) = console u \<and> disk (mu_Unlock w4) = disk u"
    using r w1 by (simp add: mu_Unlock_def)
  ultimately show ?thesis by blast
qed

lemma failed_open_v2:
  assumes "mu (lg w) = Unlocked" and "bufWriter (lg w) = Some a" and "logFile (lg w) = Some fd"
    and "\<not> f_closed (files w fd)" and "SetOutput_v2 path w = Returns (Some e) w1"
  shows "f_closed (files w1 fd) \<and> lg w1 = lg w \<and> wr (writers w1 a) = wr (writers w a) \<and>
         SysClose fd \<in> set (trace w1)"
proof -
  obtain e2 w2 where fl: "bufio_Flush a (locked w) = (e2, w2)" by (cases "bufio_Flush a (locked w)")
  from bufio_Flush_frame [OF fl]
  have f2: "lg w2 = lg (locked w)" "files w2 = files w" "wr (writers w2 a) = wr (writers w a)"
    by (simp_all add: io_only_def locked_def)
  let ?w3 = "snd (File_Close fd w2)"
  have w3: "?w3 = (syscall_done (SysClose fd) w2)\<lparr>files := (files w2)(fd := (files w2 fd)\<lparr>f_closed := True\<rparr>)\<rparr>"
    using f2 assms(4) by (simp add: File_Close_def)
  obtain r w4 where op: "os_OpenFile path ?w3 = (r, w4)" by (cases "os_OpenFile path ?w3")
  have bw: "bufWriter (lg (locked w)) = Some a" using assms(2) by (simp add: locked_def)
  have lf2: "logFile (lg w2) = Some fd" using f2 assms(3) by (simp add: locked_def)
  from assms(5) mu_Lock_unlocked [OF assms(1)] bw fl lf2 op
  have r: "r = Inl e" and w1: "w1 = mu_Unlock w4"
    by (auto simp: SetOutput_v2_def Let_def split: sum.splits prod.splits)
  from op r have w4: "w4 = syscall_done (SysOpen path) ?w3"
    by (auto simp: os_OpenFile_def Let_def split: if_splits)
  show ?thesis
    unfolding w1 w4 w3 using f2 assms(1)
    by (simp add: mu_Unlock_def syscall_done_def locked_def)
qed

lemma failed_open_v1:
  assumes "mu (lg w) = Unlocked" and "SetOutput_v1 path w = Returns (Some e) w1"
  shows "lg w1 = lg w \<and> files w1 = files w"
proof -
  let ?w2 = "case bufWriter (lg (locked w)) of None \<Rightarrow> locked w
             | Some a \<Rightarrow> snd (bufio_Flush a (locked w))"
  have lg2: "lg ?w2 = lg (locked w)" "files ?w2 = files w"
    by (simp_all add: bufio_Flush_lg locked_def split: option.splits)
  obtain r w3 where op: "os_OpenFile path ?w2 = (r, w3)" by (cases "os_OpenFile path ?w2")
  from assms(2) mu_Lock_unlocked [OF assms(1)] op
  have r: "r = Inl e" and w1: "w1 = mu_Unlock w3"
    by (auto simp: SetOutput_v1_def Let_def bufio_NewWriter_def split: sum.splits prod.splits)
  from op r have w3: "w3 = syscall_done (SysOpen path) ?w2"
    by (auto simp: os_OpenFile_def Let_def split: if_splits)
  show ?thesis
    unfolding w1 w3 using lg2 assms(1)
    by (simp add: mu_Unlock_def syscall_done_def locked_def)
qed

lemma world_bad_path_eq:
  "world_bad_path =
     \<lparr>console = [], disk = (\<lambda>path. None)(''app.log'' := Some []),
      files = (\<lambda>fd. \<lparr>f_name = [], f_closed = True\<rparr>)
                (0 := \<lparr>f_name = ''app.log'', f_closed = True\<rparr>),
      next_file = 1,
      writers = (\<lambda>a. \<lparr>buf = [], err = None, wr = Direct Stdout\<rparr>)
                (1 := \<lparr>buf = [], err = None, wr = MultiWriter [File 0, Stdout]\<rparr>),
      next_writer = 2, faults = [],
      trace = [SysOpen ''app.log'', SysClose 0, SysOpen ''/no/such/dir/app.log''],
      clock = clock world0,
      lg = \<lparr>mu = Unlocked, logger = \<lparr>out = 1, prefix = [], flag = 0\<rparr>, bufWriter = Some 1,
            logLevel = LogLevelInfo, logFile = Some 0\<rparr>\<rparr>"
  unfolding world_bad_path_def
  apply (simp add: world_redirected_eq)
  apply (simp add: eval_defs fun_eq_iff)
  done

section \<open>The claims\<close>

subsection \<open>C1: a failed SetOutput\<close>

text \<open>
  C1 says that a failed \<^verbatim>\<open>SetOutput\<close> leaves the previous sink intact and operable. The
  second variant closes the previous backing file before it tries to open the new one.
  So when the logger already writes to a file and the open fails, the logger's fields
  still name the old buffered writer and the old handle, but that handle is now closed:
  every later accepted write below Fatal, followed by \<^verbatim>\<open>Flush\<close>, ends in an error and
  reaches neither the file nor the console. The first variant opens before it closes
  and keeps the logger's fields and all handles as they were.
\<close>

theorem SetOutput_v2_failure_breaks_sink:
  assumes "file_sink w a fd path0 (MultiWriter [File fd, Stdout])"
    and "SetOutput_v2 path w = Returns (Some e) w1"
  shows "f_closed (files w1 fd) \<and> lg w1 = lg w \<and> SysClose fd \<in> set (trace w1) \<and>
         mlog_SetOutput path w = Returns (Some e) w1 \<and>
         (\<not> lvl <s logLevel (lg w1) \<and> lvl \<noteq> LogLevelFatal \<longrightarrow>
            (\<exists>e' u3. Flush_v2 (after (Log_v2 Sprint lvl args w1)) = Returns (Some e') u3 \<and>
                     console u3 = console w1 \<and> disk u3 = disk w1)) \<and>
         (mu (lg v) = Unlocked \<and> SetOutput_v1 path v = Returns (Some e) v1 \<longrightarrow>
            lg v1 = lg v \<and> files v1 = files v)"
proof -
  from assms(1) have mu: "mu (lg w) = Unlocked" and wd: "wired w a"
    and lf: "logFile (lg w) = Some fd" and op: "\<not> f_closed (files w fd)"
    and t: "wr (writers w a) = MultiWriter [File fd, Stdout]"
    by (simp_all add: file_sink_def)
  from wd have bw: "bufWriter (lg w) = Some a" by (simp add: wired_def)
  from failed_open_v2 [OF mu bw lf op assms(2)]
  have 1: "f_closed (files w1 fd)" "lg w1 = lg w" "wr (writers w1 a) = wr (writers w a)"
    "SysClose fd \<in> set (trace w1)"
    by simp_all
  have mu1: "mu (lg w1) = Unlocked" and wd1: "wired w1 a"
    using 1(2) mu wd by (simp_all add: wired_def)
  have t1: "wr (writers w1 a) = MultiWriter [File fd, Stdout]" using 1(3) t by simp
  have 2: "\<exists>e' u3. Flush_v2 (after (Log_v2 Sprint lvl args w1)) = Returns (Some e') u3 \<and>
                     console u3 = console w1 \<and> disk u3 = disk w1"
    if "\<not> lvl <s logLevel (lg w1)" "lvl \<noteq> LogLevelFatal"
  proof -
    from that
    have "after (Log_v2 Sprint lvl args w1)
        = mu_Unlock (log_Println (logger (lg w1)) (formatMessage Sprint lvl args w1) (locked w1))"
      by (simp add: Log_v2_cases [OF mu1])
    with closed_tee_line_lost [OF wd1 mu1 t1 1(1)] show ?thesis by simp
  qed
  from 1 2 assms(2) failed_open_v1 [of v path e v1] show ?thesis
    by (simp add: mlog_SetOutput_def)
qed

theorem SetOutput_v2_failure_breaks_sink_witness:
  "file_sink (world_redirected\<lparr>faults := [False, True]\<rparr>) 1 0 ''app.log'' (MultiWriter [File 0, Stdout]) \<and>
   mlog_SetOutput ''/no/such/dir/app.log'' (world_redirected\<lparr>faults := [False, True]\<rparr>)
     = Returns (Some ErrOpen) world_bad_path \<and>
   logFile (lg world_bad_path) = Some 0 \<and> f_closed (files world_bad_path 0) \<and>
   \<not> LogLevelInfo <s logLevel (lg world_bad_path) \<and> LogLevelInfo \<noteq> LogLevelFatal \<and>
   mlog_Info concat [''up''] world_bad_path
     = Returns () (after (mlog_Info concat [''up''] world_bad_path)) \<and>
   mlog_Flush (after (mlog_Info concat [''up''] world_bad_path))
     = Returns (Some ErrClosed) (after (mlog_Flush (after (mlog_Info concat [''up''] world_bad_path)))) \<and>
   console (after (mlog_Flush (after (mlog_Info concat [''up''] world_bad_path)))) = [] \<and>
   contents (after (mlog_Flush (after (mlog_Info concat [''up''] world_bad_path)))) ''app.log'' = [] \<and>
   mu (lg (world_redirected_v1\<lparr>faults := [True]\<rparr>)) = Unlocked \<and>
   SetOutput_v1 ''/no/such/dir/app.log'' (world_redirected_v1\<lparr>faults := [True]\<rparr>)
     = Returns (Some ErrOpen)
         (after (SetOutput_v1 ''/no/such/dir/app.log'' (world_redirected_v1\<lparr>faults := [True]\<rparr>))) \<and>
   \<not> f_closed (files (after (SetOutput_v1 ''/no/such/dir/app.log''
                               (world_redirected_v1\<lparr>faults := [True]\<rparr>))) 0)"
proof -
  let ?v = "world_redirected_v1\<lparr>faults := [True]\<rparr>"
  let ?w = "world_redirected\<lparr>faults := [False, True]\<rparr>"
  have fs: "file_sink ?w 1 0 ''app.log'' (MultiWriter [File 0, Stdout])"
    by (simp add: world_redirected_eq file_sink_def wired_def)
  have so: "SetOutput_v2 ''/no/such/dir/app.log'' ?w = Returns (Some ErrOpen) world_bad_path"
    unfolding world_bad_path_def
    apply (simp add: world_redirected_eq)
    apply (simp add: eval_defs)
    done
  have muv: "mu (lg ?v) = Unlocked" by (simp add: world_redirected_v1_eq)
  have sov: "SetOutput_v1 ''/no/such/dir/app.log'' ?v
      = Returns (Some ErrOpen) (after (SetOutput_v1 ''/no/such/dir/app.log'' ?v))"
    apply (simp add: world_redirected_v1_eq)
    apply (simp add: eval_defs)
    done
  note inst = SetOutput_v2_failure_breaks_sink [OF fs so, where lvl = LogLevelInfo and Sprint = concat
      and args = "[''up'']" and v = ?v and ?v1.0 = "after (SetOutput_v1 ''/no/such/dir/app.log'' ?v)"]
  from inst muv sov have "files (after (SetOutput_v1 ''/no/such/dir/app.log'' ?v)) = files ?v"
    by blast
  then have opv: "\<not> f_closed (files (after (SetOutput_v1 ''/no/such/dir/app.log'' ?v)) 0)"
    by (simp add: world_redirected_v1_eq)
  from inst
  have 1: "f_closed (files world_bad_path 0)" "lg world_bad_path = lg ?w"
    "mlog_SetOutput ''/no/such/dir/app.log'' ?w = Returns (Some ErrOpen) world_bad_path"
    by simp_all
  have 2: "logFile (lg world_bad_path) = Some 0" using 1(2) by (simp add: world_redirected_eq)
  have lv: "\<not> LogLevelInfo <s logLevel (lg world_bad_path)" "LogLevelInfo \<noteq> LogLevelFatal"
    using 1(2) by (simp_all add: world_redirected_eq LogLevelInfo_def LogLevelFatal_def)
  have ev: "mlog_Info concat [''up''] world_bad_path
     = Returns () (after (mlog_Info concat [''up''] world_bad_path)) \<and>
   mlog_Flush (after (mlog_Info concat [''up''] world_bad_path))
     = Returns (Some ErrClosed) (after (mlog_Flush (after (mlog_Info concat [''up''] world_bad_path)))) \<and>
   console (after (mlog_Flush (after (mlog_Info concat [''up''] world_bad_path)))) = [] \<and>
   contents (after (mlog_Flush (after (mlog_Info concat [''up''] world_bad_path)))) ''app.log'' = []"
    apply (simp add: world_bad_path_eq)
    apply (simp add: eval_defs)
    done
  from fs 1 2 lv ev muv sov opv show ?thesis by simp
qed

subsection \<open>C2: a write at level Fatal\<close>

text \<open>
  C2 says that a Fatal write that passes the threshold flushes the buffer, closes the
  backing file and ends the process with a non-zero status. The code does not get
  there: \<^verbatim>\<open>Log\<close> and \<^verbatim>\<open>Logf\<close> call \<^verbatim>\<open>l.Flush()\<close> while they hold \<^verbatim>\<open>l.mu\<close>, and
  \<^verbatim>\<open>Flush\<close> starts with \<^verbatim>\<open>l.mu.Lock()\<close>. In both variants, for every logger whose mutex
  is free and whose threshold admits Fatal, the call hands the line to the buffered
  writer and then waits for its own lock: it neither returns nor exits, the file is
  neither synced nor closed, and a line that fits the buffer is never written out.
\<close>

theorem Fatal_write_never_exits:
  assumes "mu (lg w) = Unlocked" and "\<not> LogLevelFatal <s logLevel (lg w)" and "wired w a"
  shows "stuck_with_line w a (formatMessage Sprint LogLevelFatal args w @ newline)
           (Log_v1 Sprint LogLevelFatal args w) \<and>
         stuck_with_line w a (formatMessage Sprint LogLevelFatal args w @ newline)
           (Log_v2 Sprint LogLevelFatal args w) \<and>
         stuck_with_line w a (formatMessagef Sprintf format LogLevelFatal args w @ newline)
           (Logf_v1 Sprintf LogLevelFatal format args w) \<and>
         stuck_with_line w a (formatMessagef Sprintf format LogLevelFatal args w @ newline)
           (Logf_v2 Sprintf format LogLevelFatal args w) \<and>
         stuck_with_line w a (formatMessage Sprint LogLevelFatal args w @ newline)
           (Fatal_v1 Sprint args w) \<and>
         stuck_with_line w a (formatMessage Sprint LogLevelFatal args w @ newline)
           (Fatal_v2 Sprint args w) \<and>
         stuck_with_line w a (formatMessagef Sprintf format LogLevelFatal args w @ newline)
           (Fatalf_v1 Sprintf format args w) \<and>
         stuck_with_line w a (formatMessagef Sprintf format LogLevelFatal args w @ newline)
           (Fatalf_v2 Sprintf format args w) \<and>
         stuck_with_line w a (formatMessage Sprint LogLevelFatal args w @ newline)
           (mlog_Fatal Sprint args w) \<and>
         stuck_with_line w a (formatMessagef Sprintf format LogLevelFatal args w @ newline)
           (mlog_Fatalf Sprintf format args w)"
  using assms(2)
  by (simp add: stuck_Println [OF assms(3)] Log_v1_cases [OF assms(1)] Log_v2_cases [OF assms(1)]
      Logf_v1_cases [OF assms(1)] Logf_v2_cases [OF assms(1)]
      Fatal_v1_def Fatal_v2_def Fatalf_v1_def Fatalf_v2_def mlog_Fatal_def mlog_Fatalf_def)

theorem Fatal_write_never_exits_witness:
  "mu (lg (mlog world0)) = Unlocked \<and> \<not> LogLevelFatal <s logLevel (lg (mlog world0)) \<and>
   wired (mlog world0) 0 \<and>
   mlog_Fatal concat [''shutdown''] (mlog world0)
     = Blocks (after (mlog_Fatal concat [''shutdown''] (mlog world0))) \<and>
   console (after (mlog_Fatal concat [''shutdown''] (mlog world0))) = [] \<and>
   trace (after (mlog_Fatal concat [''shutdown''] (mlog world0))) = [] \<and>
   buf (writers (after (mlog_Fatal concat [''shutdown''] (mlog world0))) 0)
     = ''[2024-03-09 07:05:00] [FATAL] shutdown'' @ newline"
proof -
  let ?w = "mlog world0"
  have h1: "mu (lg ?w) = Unlocked" by (simp add: mlog_world0)
  have h2: "\<not> LogLevelFatal <s logLevel (lg ?w)"
    by (simp add: mlog_world0 LogLevelFatal_def LogLevelInfo_def word_sless_alt)
  have h3: "wired ?w 0" by (simp add: mlog_world0 wired_def)
  have line: "formatMessage concat LogLevelFatal [''shutdown''] ?w
      = ''[2024-03-09 07:05:00] [FATAL] shutdown''"
    by (simp add: formatMessage_def bracketed_def LogLevel_String_def mlog_world0
        LogLevelFatal_def LogLevelDebug_def LogLevelInfo_def LogLevelWarning_def LogLevelError_def)
  have st: "stuck_with_line ?w 0 (''[2024-03-09 07:05:00] [FATAL] shutdown'' @ newline)
       (mlog_Fatal concat [''shutdown''] ?w)"
    using Fatal_write_never_exits [OF h1 h2 h3, of concat "[''shutdown'']"] line by simp
  have fits: "err (writers ?w 0) = None \<and>
     length (''[2024-03-09 07:05:00] [FATAL] shutdown'' @ newline)
       \<le> defaultBufSize - length (buf (writers ?w 0))"
    by (simp add: mlog_world0 defaultBufSize_def newline_def)
  from st fits have "case mlog_Fatal concat [''shutdown''] ?w of
      Blocks w' \<Rightarrow> trace w' = trace ?w \<and> console w' = console ?w \<and>
         buf (writers w' 0) = buf (writers ?w 0) @ ''[2024-03-09 07:05:00] [FATAL] shutdown'' @ newline
    | Returns x w' \<Rightarrow> False | Exits c w' \<Rightarrow> False"
    by (simp add: stuck_with_line_def split: outcome.splits)
  then have "mlog_Fatal concat [''shutdown''] ?w
     = Blocks (after (mlog_Fatal concat [''shutdown''] ?w)) \<and>
   console (after (mlog_Fatal concat [''shutdown''] ?w)) = console ?w \<and>
   trace (after (mlog_Fatal concat [''shutdown''] ?w)) = trace ?w \<and>
   buf (writers (after (mlog_Fatal concat [''shutdown''] ?w)) 0)
     = buf (writers ?w 0) @ ''[2024-03-09 07:05:00] [FATAL] shutdown'' @ newline"
    by (cases "mlog_Fatal concat [''shutdown''] ?w") simp_all
  moreover have "console ?w = [] \<and> trace ?w = [] \<and> buf (writers ?w 0) = []"
    by (simp add: mlog_world0) (simp add: world0_def)
  ultimately show ?thesis using h1 h2 h3 by simp
qed

subsection \<open>C3: the sink after a successful SetOutput\<close>

text \<open>
  C3 as the code has it. After a successful \<^verbatim>\<open>SetOutput(path)\<close> the logger is idle and
  writes through a fresh, empty buffered writer whose backing file is the newly opened
  handle on \<open>path\<close>. In the second variant (and package mlog) that writer tees to the
  file and the console: every later accepted write below Fatal, once \<^verbatim>\<open>Flush\<close> returns
  without error, has appended what was buffered and its line to both the file and the
  console, and the sink is as before. In the first variant the writer is over the file
  alone: the same bytes reach the file and the console is left untouched.
\<close>

theorem SetOutput_installs_sink:
  assumes "mu (lg w) = Unlocked"
  shows "(SetOutput_v2 path w = Returns None w1 \<longrightarrow>
            (\<exists>a fd. file_sink w1 a fd path (MultiWriter [File fd, Stdout]) \<and>
                    buf (writers w1 a) = [] \<and> err (writers w1 a) = None)) \<and>
         (mlog_SetOutput path w = Returns None w1 \<longrightarrow>
            (\<exists>a fd. file_sink w1 a fd path (MultiWriter [File fd, Stdout]) \<and>
                    buf (writers w1 a) = [] \<and> err (writers w1 a) = None)) \<and>
         (prefix (logger (lg w)) = [] \<and> allocated w \<and> SetOutput_v1 path w = Returns None w1 \<longrightarrow>
            (\<exists>a fd. file_sink w1 a fd path (Direct (File fd)) \<and>
                    buf (writers w1 a) = [] \<and> err (writers w1 a) = None)) \<and>
         (file_sink u a fd path (MultiWriter [File fd, Stdout]) \<and>
          \<not> lvl <s logLevel (lg u) \<and> lvl \<noteq> LogLevelFatal \<and>
          Flush_v2 (after (Log_v2 Sprint lvl args u)) = Returns None u3 \<longrightarrow>
            contents u3 path
              = contents u path @ buf (writers u a) @ formatMessage Sprint lvl args u @ newline \<and>
            console u3
              = console u @ buf (writers u a) @ formatMessage Sprint lvl args u @ newline \<and>
            file_sink u3 a fd path (MultiWriter [File fd, Stdout]) \<and> buf (writers u3 a) = []) \<and>
         (file_sink u a fd path (MultiWriter [File fd, Stdout]) \<and>
          \<not> lvl <s logLevel (lg u) \<and> lvl \<noteq> LogLevelFatal \<and>
          Flush_v2 (after (Logf_v2 Sprintf format lvl args u)) = Returns None u3 \<longrightarrow>
            contents u3 path
              = contents u path @ buf (writers u a) @ formatMessagef Sprintf format lvl args u @ newline \<and>
            console u3
              = console u @ buf (writers u a) @ formatMessagef Sprintf format lvl args u @ newline \<and>
            file_sink u3 a fd path (MultiWriter [File fd, Stdout]) \<and> buf (writers u3 a) = []) \<and>
         (file_sink u a fd path (Direct (File fd)) \<and>
          \<not> lvl <s logLevel (lg u) \<and> lvl \<noteq> LogLevelFatal \<and>
          Flush_v1 (after (Log_v1 Sprint lvl args u)) = Returns None u3 \<longrightarrow>
            contents u3 path
              = contents u path @ buf (writers u a) @ formatMessage Sprint lvl args u @ newline \<and>
            console u3 = console u \<and>
            file_sink u3 a fd path (Direct (File fd)) \<and> buf (writers u3 a) = []) \<and>
         (file_sink u a fd path (Direct (File fd)) \<and>
          \<not> lvl <s logLevel (lg u) \<and> lvl \<noteq> LogLevelFatal \<and>
          Flush_v1 (after (Logf_v1 Sprintf lvl format args u)) = Returns None u3 \<longrightarrow>
            contents u3 path
              = contents u path @ buf (writers u a) @ formatMessagef Sprintf format lvl args u @ newline \<and>
            console u3 = console u \<and>
            file_sink u3 a fd path (Direct (File fd)) \<and> buf (writers u3 a) = [])"
proof -
  have 1: "SetOutput_v2 path w = Returns None w1 \<longrightarrow>
            (\<exists>a fd. file_sink w1 a fd path (MultiWriter [File fd, Stdout]) \<and>
                    buf (writers w1 a) = [] \<and> err (writers w1 a) = None)"
    using SetOutput_v2_success [OF assms] by blast
  have 2: "prefix (logger (lg w)) = [] \<and> allocated w \<and> SetOutput_v1 path w = Returns None w1 \<longrightarrow>
            (\<exists>a fd. file_sink w1 a fd path (Direct (File fd)) \<and>
                    buf (writers w1 a) = [] \<and> err (writers w1 a) = None)"
    using SetOutput_v1_success [OF assms] by blast
  have 3: "contents u3 path
              = contents u path @ buf (writers u a) @ formatMessage Sprint lvl args u @ newline \<and>
            console u3
              = console u @ buf (writers u a) @ formatMessage Sprint lvl args u @ newline \<and>
            file_sink u3 a fd path (MultiWriter [File fd, Stdout]) \<and> buf (writers u3 a) = []"
    if "file_sink u a fd path (MultiWriter [File fd, Stdout])" "\<not> lvl <s logLevel (lg u)"
      "lvl \<noteq> LogLevelFatal" "Flush_v2 (after (Log_v2 Sprint lvl args u)) = Returns None u3"
  proof -
    from that(1) have mu: "mu (lg u) = Unlocked" by (simp add: file_sink_def)
    from that(2,3)
    have "after (Log_v2 Sprint lvl args u)
        = mu_Unlock (log_Println (logger (lg u)) (formatMessage Sprint lvl args u) (locked u))"
      by (simp add: Log_v2_cases [OF mu])
    with that(4) show ?thesis by (simp add: tee_write_flush [OF that(1)])
  qed
  have 4: "contents u3 path
              = contents u path @ buf (writers u a) @ formatMessagef Sprintf format lvl args u @ newline \<and>
            console u3
              = console u @ buf (writers u a) @ formatMessagef Sprintf format lvl args u @ newline \<and>
            file_sink u3 a fd path (MultiWriter [File fd, Stdout]) \<and> buf (writers u3 a) = []"
    if "file_sink u a fd path (MultiWriter [File fd, Stdout])" "\<not> lvl <s logLevel (lg u)"
      "lvl \<noteq> LogLevelFatal" "Flush_v2 (after (Logf_v2 Sprintf format lvl args u)) = Returns None u3"
  proof -
    from that(1) have mu: "mu (lg u) = Unlocked" by (simp add: file_sink_def)
    from that(2,3)
    have "after (Logf_v2 Sprintf format lvl args u)
        = mu_Unlock (log_Println (logger (lg u)) (formatMessagef Sprintf format lvl args u) (locked u))"
      by (simp add: Logf_v2_cases [OF mu])
    with that(4) show ?thesis by (simp add: tee_write_flush [OF that(1)])
  qed
  have 5: "contents u3 path
              = contents u path @ buf (writers u a) @ formatMessage Sprint lvl args u @ newline \<and>
            console u3 = console u \<and>
            file_sink u3 a fd path (Direct (File fd)) \<and> buf (writers u3 a) = []"
    if "file_sink u a fd path (Direct (File fd))" "\<not> lvl <s logLevel (lg u)"
      "lvl \<noteq> LogLevelFatal" "Flush_v1 (after (Log_v1 Sprint lvl args u)) = Returns None u3"
  proof -
    from that(1) have mu: "mu (lg u) = Unlocked" by (simp add: file_sink_def)
    from that(2,3)
    have "after (Log_v1 Sprint lvl args u)
        = mu_Unlock (log_Println (logger (lg u)) (formatMessage Sprint lvl args u) (locked u))"
      by (simp add: Log_v1_cases [OF mu])
    with that(4) show ?thesis by (simp add: file_write_flush [OF that(1)])
  qed
  have 6: "contents u3 path
              = contents u path @ buf (writers u a) @ formatMessagef Sprintf format lvl args u @ newline \<and>
            console u3 = console u \<and>
            file_sink u3 a fd path (Direct (File fd)) \<and> buf (writers u3 a) = []"
    if "file_sink u a fd path (Direct (File fd))" "\<not> lvl <s logLevel (lg u)"
      "lvl \<noteq> LogLevelFatal" "Flush_v1 (after (Logf_v1 Sprintf lvl format args u)) = Returns None u3"
  proof -
    from that(1) have mu: "mu (lg u) = Unlocked" by (simp add: file_sink_def)
    from that(2,3)
    have "after (Logf_v1 Sprintf lvl format args u)
        = mu_Unlock (log_Println (logger (lg u)) (formatMessagef Sprintf format lvl args u) (locked u))"
      by (simp add: Logf_v1_cases [OF mu])
    with that(4) show ?thesis by (simp add: file_write_flush [OF that(1)])
  qed
  from 1 2 3 4 5 6 show ?thesis unfolding mlog_SetOutput_def by blast
qed

theorem SetOutput_installs_sink_witness:
  "mu (lg (mlog world0)) = Unlocked \<and>
   mlog_SetOutput ''app.log'' (mlog world0) = Returns None world_redirected \<and>
   file_sink world_redirected 1 0 ''app.log'' (MultiWriter [File 0, Stdout]) \<and>
   \<not> LogLevelInfo <s logLevel (lg world_redirected) \<and> LogLevelInfo \<noteq> LogLevelFatal \<and>
   Flush_v2 (after (Log_v2 concat LogLevelInfo [''up''] world_redirected))
     = Returns None (after (Flush_v2 (after (Log_v2 concat LogLevelInfo [''up''] world_redirected)))) \<and>
   contents (after (Flush_v2 (after (Log_v2 concat LogLevelInfo [''up''] world_redirected)))) ''app.log''
     = ''[2024-03-09 07:05:00] [INFO] up'' @ newline \<and>
   console (after (Flush_v2 (after (Log_v2 concat LogLevelInfo [''up''] world_redirected))))
     = ''[2024-03-09 07:05:00] [INFO] up'' @ newline \<and>
   prefix (logger (lg (New_v1 world0))) = [] \<and> allocated (New_v1 world0) \<and>
   SetOutput_v1 ''app.log'' (New_v1 world0) = Returns None world_redirected_v1 \<and>
   file_sink world_redirected_v1 1 0 ''app.log'' (Direct (File 0)) \<and>
   Flush_v1 (after (Log_v1 concat LogLevelInfo [''up''] world_redirected_v1))
     = Returns None (after (Flush_v1 (after (Log_v1 concat LogLevelInfo [''up''] world_redirected_v1)))) \<and>
   contents (after (Flush_v1 (after (Log_v1 concat LogLevelInfo [''up''] world_redirected_v1)))) ''app.log''
     = ''[2024-03-09 07:05:00] [INFO] up'' @ newline \<and>
   console (after (Flush_v1 (after (Log_v1 concat LogLevelInfo [''up''] world_redirected_v1)))) = []"
proof -
  let ?u = world_redirected
  let ?u3 = "after (Flush_v2 (after (Log_v2 concat LogLevelInfo [''up''] ?u)))"
  let ?v = world_redirected_v1
  let ?v3 = "after (Flush_v1 (after (Log_v1 concat LogLevelInfo [''up''] ?v)))"
  have h0: "mu (lg (mlog world0)) = Unlocked" by (rule mlog_world0_facts)
  have fs: "file_sink ?u 1 0 ''app.log'' (MultiWriter [File 0, Stdout])"
    by (simp add: world_redirected_eq file_sink_def wired_def)
  have lv: "\<not> LogLevelInfo <s logLevel (lg ?u)" "LogLevelInfo \<noteq> LogLevelFatal"
    by (simp_all add: world_redirected_eq LogLevelInfo_def LogLevelFatal_def)
  have fl: "Flush_v2 (after (Log_v2 concat LogLevelInfo [''up''] ?u)) = Returns None ?u3"
    apply (simp add: world_redirected_eq)
    apply (simp add: eval_defs)
    done
  have v0: "prefix (logger (lg (New_v1 world0))) = []" "allocated (New_v1 world0)"
    "mu (lg (New_v1 world0)) = Unlocked"
    by (simp_all add: New_v1_def bufio_NewWriter_def set_writer_def log_New_def allocated_def)
  have fsv: "file_sink ?v 1 0 ''app.log'' (Direct (File 0))"
    by (simp add: world_redirected_v1_eq file_sink_def wired_def)
  have lvv: "\<not> LogLevelInfo <s logLevel (lg ?v)"
    by (simp add: world_redirected_v1_eq LogLevelInfo_def)
  have flv: "Flush_v1 (after (Log_v1 concat LogLevelInfo [''up''] ?v)) = Returns None ?v3"
    apply (simp add: world_redirected_v1_eq)
    apply (simp add: eval_defs)
    done
  have line: "formatMessage concat LogLevelInfo [''up''] ?u = ''[2024-03-09 07:05:00] [INFO] up''"
    "formatMessage concat LogLevelInfo [''up''] ?v = ''[2024-03-09 07:05:00] [INFO] up''"
    by (simp_all add: formatMessage_def bracketed_def level_names world_redirected_eq
        world_redirected_v1_eq)
  have start: "contents ?u ''app.log'' = [] \<and> console ?u = [] \<and> buf (writers ?u 1) = []"
    "contents ?v ''app.log'' = [] \<and> console ?v = [] \<and> buf (writers ?v 1) = []"
    by (simp_all add: world_redirected_eq world_redirected_v1_eq contents_def)
  note inst2 = SetOutput_installs_sink [OF h0, where u = ?u and a = 1 and fd = 0
      and path = "''app.log''" and lvl = LogLevelInfo and Sprint = concat and args = "[''up'']"
      and ?u3.0 = ?u3]
  note inst1 = SetOutput_installs_sink [OF h0, where u = ?v and a = 1 and fd = 0
      and path = "''app.log''" and lvl = LogLevelInfo and Sprint = concat and args = "[''up'']"
      and ?u3.0 = ?v3]
  from inst2 fs lv fl have c2: "contents ?u3 ''app.log''
      = contents ?u ''app.log'' @ buf (writers ?u 1) @ formatMessage concat LogLevelInfo [''up''] ?u @ newline
    \<and> console ?u3
      = console ?u @ buf (writers ?u 1) @ formatMessage concat LogLevelInfo [''up''] ?u @ newline"
    by blast
  from inst1 fsv lvv lv(2) flv have c1: "contents ?v3 ''app.log''
      = contents ?v ''app.log'' @ buf (writers ?v 1) @ formatMessage concat LogLevelInfo [''up''] ?v @ newline
    \<and> console ?v3 = console ?v"
    by blast
  from c2 c1 line start have res: "contents ?u3 ''app.log'' = ''[2024-03-09 07:05:00] [INFO] up'' @ newline"
    "console ?u3 = ''[2024-03-09 07:05:00] [INFO] up'' @ newline"
    "contents ?v3 ''app.log'' = ''[2024-03-09 07:05:00] [INFO] up'' @ newline"
    "console ?v3 = []"
    by simp_all
  from h0 SetOutput_v2_world0 fs lv fl res v0 SetOutput_v1_world0 fsv flv show ?thesis
    by blast
qed

text \<open>
  C3 as stated fails on the first variant: after a successful \<^verbatim>\<open>SetOutput\<close> its buffered
  writer is over the file only, and an accepted, flushed line is in the file but not on
  the console.
\<close>

theorem SetOutput_v1_has_no_tee:
  "SetOutput_v1 ''app.log'' (New_v1 world0) = Returns None world_redirected_v1 \<and>
   bufWriter (lg world_redirected_v1) = Some 1 \<and> out (logger (lg world_redirected_v1)) = 1 \<and>
   wr (writers world_redirected_v1 1) = Direct (File 0) \<and>
   wr (writers world_redirected_v1 1) \<noteq> MultiWriter [File 0, Stdout] \<and>
   Info_v1 concat [''up''] world_redirected_v1
     = Returns () (after (Info_v1 concat [''up''] world_redirected_v1)) \<and>
   Flush_v1 (after (Info_v1 concat [''up''] world_redirected_v1))
     = Returns None (after (Flush_v1 (after (Info_v1 concat [''up''] world_redirected_v1)))) \<and>
   contents (after (Flush_v1 (after (Info_v1 concat [''up''] world_redirected_v1)))) ''app.log''
     = ''[2024-03-09 07:05:00] [INFO] up'' @ newline \<and>
   console (after (Flush_v1 (after (Info_v1 concat [''up''] world_redirected_v1)))) = [] \<and>
   console (after (Flush_v1 (after (Info_v1 concat [''up''] world_redirected_v1))))
     \<noteq> ''[2024-03-09 07:05:00] [INFO] up'' @ newline"
  apply (simp add: SetOutput_v1_world0)
  apply (simp add: world_redirected_v1_eq)
  apply (simp add: eval_defs)
  done

subsection \<open>C4: Flush\<close>

text \<open>
  C4 as the code has it. \<^verbatim>\<open>Flush\<close> of the second variant (and of package mlog) first
  flushes the buffered writer. When that fails it returns that error at once: up to
  there only writes were made, so no sync is attempted. When it succeeds and a backing
  file is open, the file is synced and the result is the sync's; with no backing file
  the result is no error. \<^verbatim>\<open>Flush\<close> of the first variant returns the result of the
  buffer flush and never syncs.
\<close>

theorem Flush_stops_at_first_error:
  assumes "mu (lg w) = Unlocked" and "bufWriter (lg w) = Some a"
    and "bufio_Flush a (locked w) = (e, w1)"
  shows "(e \<noteq> None \<longrightarrow> Flush_v2 w = Returns e (mu_Unlock w1)) \<and>
         (e = None \<and> logFile (lg w) = None \<longrightarrow> Flush_v2 w = Returns None (mu_Unlock w1)) \<and>
         (e = None \<and> logFile (lg w) = Some fd \<longrightarrow>
            Flush_v2 w = Returns (fst (File_Sync fd w1)) (mu_Unlock (snd (File_Sync fd w1)))) \<and>
         (e = None \<and> logFile (lg w) = Some fd \<and> \<not> f_closed (files w fd) \<longrightarrow>
            Flush_v2 w = Returns (if env_fails w1 then Some ErrSync else None)
                           (mu_Unlock (syscall_done (SysSync fd) w1))) \<and>
         mlog_Flush w = Flush_v2 w \<and>
         Flush_v1 w = Returns e (mu_Unlock w1) \<and>
         io_only w (mu_Unlock w1)"
proof -
  note c2 = Flush_v2_cases [OF assms]
  from bufio_Flush_frame [OF assms(3)] have f1: "files w1 = files w"
    by (simp add: io_only_def locked_def)
  have 1: "e \<noteq> None \<longrightarrow> Flush_v2 w = Returns e (mu_Unlock w1)"
    using c2 by (cases e) simp_all
  have 2: "e = None \<and> logFile (lg w) = None \<longrightarrow> Flush_v2 w = Returns None (mu_Unlock w1)"
    using c2 by simp
  have 3: "e = None \<and> logFile (lg w) = Some fd \<longrightarrow>
            Flush_v2 w = Returns (fst (File_Sync fd w1)) (mu_Unlock (snd (File_Sync fd w1)))"
    using c2 by simp
  have 4: "e = None \<and> logFile (lg w) = Some fd \<and> \<not> f_closed (files w fd) \<longrightarrow>
            Flush_v2 w = Returns (if env_fails w1 then Some ErrSync else None)
                           (mu_Unlock (syscall_done (SysSync fd) w1))"
    using c2 f1 by (simp add: File_Sync_def)
  from 1 2 3 4 Flush_v1_cases [OF assms] Flush_buffer_step_frame [OF assms(1,3)]
  show ?thesis by (simp add: mlog_Flush_def)
qed

theorem Flush_stops_at_first_error_witness:
  "mu (lg world_pending) = Unlocked \<and> bufWriter (lg world_pending) = Some 1 \<and>
   fst (bufio_Flush 1 (locked world_pending)) = Some ErrWrite \<and>
   Flush_v2 world_pending
     = Returns (Some ErrWrite) (mu_Unlock (snd (bufio_Flush 1 (locked world_pending)))) \<and>
   Flush_v1 world_pending
     = Returns (Some ErrWrite) (mu_Unlock (snd (bufio_Flush 1 (locked world_pending)))) \<and>
   mu (lg world_redirected) = Unlocked \<and> bufWriter (lg world_redirected) = Some 1 \<and>
   fst (bufio_Flush 1 (locked world_redirected)) = None \<and>
   logFile (lg world_redirected) = Some 0 \<and> \<not> f_closed (files world_redirected 0) \<and>
   Flush_v2 world_redirected
     = Returns None (mu_Unlock (syscall_done (SysSync 0) (snd (bufio_Flush 1 (locked world_redirected)))))"
proof -
  let ?p = world_pending
  let ?r = world_redirected
  have hp: "mu (lg ?p) = Unlocked" "bufWriter (lg ?p) = Some 1"
    by (simp_all add: world_pending_eq)
  have ep: "fst (bufio_Flush 1 (locked ?p)) = Some ErrWrite"
    apply (simp add: world_pending_eq locked_def)
    apply (simp add: eval_defs)
    done
  have hr: "mu (lg ?r) = Unlocked" "bufWriter (lg ?r) = Some 1" "logFile (lg ?r) = Some 0"
    "\<not> f_closed (files ?r 0)"
    by (simp_all add: world_redirected_eq)
  have er: "fst (bufio_Flush 1 (locked ?r)) = None \<and> \<not> env_fails (snd (bufio_Flush 1 (locked ?r)))"
    apply (simp add: world_redirected_eq locked_def)
    apply (simp add: eval_defs)
    done
  have pp: "bufio_Flush 1 (locked ?p) = (fst (bufio_Flush 1 (locked ?p)), snd (bufio_Flush 1 (locked ?p)))"
    "bufio_Flush 1 (locked ?r) = (fst (bufio_Flush 1 (locked ?r)), snd (bufio_Flush 1 (locked ?r)))"
    by simp_all
  from Flush_stops_at_first_error [OF hp pp(1)] ep
  have 1: "Flush_v2 ?p = Returns (Some ErrWrite) (mu_Unlock (snd (bufio_Flush 1 (locked ?p))))"
    "Flush_v1 ?p = Returns (Some ErrWrite) (mu_Unlock (snd (bufio_Flush 1 (locked ?p))))"
    by simp_all
  from Flush_stops_at_first_error [OF hr(1,2) pp(2), of 0]
  have "fst (bufio_Flush 1 (locked ?r)) = None \<and> logFile (lg ?r) = Some 0 \<and>
        \<not> f_closed (files ?r 0) \<longrightarrow>
     Flush_v2 ?r = Returns (if env_fails (snd (bufio_Flush 1 (locked ?r))) then Some ErrSync else None)
                     (mu_Unlock (syscall_done (SysSync 0) (snd (bufio_Flush 1 (locked ?r)))))"
    by blast
  with er hr
  have 2: "Flush_v2 ?r = Returns None (mu_Unlock (syscall_done (SysSync 0) (snd (bufio_Flush 1 (locked ?r)))))"
    by simp
  from hp ep 1 hr er 2 show ?thesis by simp
qed

text \<open>
  C4 as stated fails: with a backing file open and one line buffered, a failing write
  makes \<^verbatim>\<open>Flush\<close> return the write's error without any sync of the file.
\<close>

theorem Flush_skips_sync_after_error:
  "mu (lg world_pending) = Unlocked \<and> logFile (lg world_pending) = Some 0 \<and>
   \<not> f_closed (files world_pending 0) \<and>
   buf (writers world_pending 1) = ''[2024-03-09 07:05:00] [INFO] up'' @ newline \<and>
   mlog_Flush world_pending = Returns (Some ErrWrite) (after (mlog_Flush world_pending)) \<and>
   trace (after (mlog_Flush world_pending))
     = [SysOpen ''app.log'', SysWrite (File 0) (''[2024-03-09 07:05:00] [INFO] up'' @ newline)] \<and>
   SysSync 0 \<notin> set (trace (after (mlog_Flush world_pending)))"
  apply (simp add: world_pending_eq)
  apply (simp add: eval_defs)
  done

subsection \<open>C5: the threshold filter\<close>

text \<open>
  C5: under the signed order Debug < Info < Warning < Error < Fatal, a write at a level
  below the threshold returns with the world exactly as it was (no byte produced, no
  system call), and a write at a level at or above the threshold hands its formatted
  line and one newline to the buffered sink. The two cases are exhaustive.
\<close>

theorem threshold_filter:
  assumes "mu (lg w) = Unlocked" and "wired w a"
  shows "(lvl <s logLevel (lg w) \<longrightarrow>
            Log_v1 Sprint lvl args w = Returns () w \<and>
            Logf_v1 Sprintf lvl format args w = Returns () w \<and>
            Log_v2 Sprint lvl args w = Returns () w \<and>
            Logf_v2 Sprintf format lvl args w = Returns () w \<and>
            mlog_Log Sprint lvl args w = Returns () w \<and>
            mlog_Logf Sprintf format lvl args w = Returns () w) \<and>
         (logLevel (lg w) \<le>s lvl \<longrightarrow>
            emitted w a (formatMessage Sprint lvl args w @ newline) (Log_v1 Sprint lvl args w) \<and>
            emitted w a (formatMessagef Sprintf format lvl args w @ newline)
              (Logf_v1 Sprintf lvl format args w) \<and>
            emitted w a (formatMessage Sprint lvl args w @ newline) (Log_v2 Sprint lvl args w) \<and>
            emitted w a (formatMessagef Sprintf format lvl args w @ newline)
              (Logf_v2 Sprintf format lvl args w) \<and>
            emitted w a (formatMessage Sprint lvl args w @ newline) (mlog_Log Sprint lvl args w) \<and>
            emitted w a (formatMessagef Sprintf format lvl args w @ newline)
              (mlog_Logf Sprintf format lvl args w)) \<and>
         (lvl <s logLevel (lg w) \<or> logLevel (lg w) \<le>s lvl) \<and>
         LogLevelDebug <s LogLevelInfo \<and> LogLevelInfo <s LogLevelWarning \<and>
         LogLevelWarning <s LogLevelError \<and> LogLevelError <s LogLevelFatal"
proof -
  have ord: "LogLevelDebug <s LogLevelInfo \<and> LogLevelInfo <s LogLevelWarning \<and>
         LogLevelWarning <s LogLevelError \<and> LogLevelError <s LogLevelFatal"
    by (simp add: LogLevelDebug_def LogLevelInfo_def LogLevelWarning_def LogLevelError_def
        LogLevelFatal_def word_sless_alt)
  from ord level_order_total [of lvl "logLevel (lg w)"] show ?thesis
    by (simp add: level_accept Log_v1_cases [OF assms(1)] Log_v2_cases [OF assms(1)]
        Logf_v1_cases [OF assms(1)] Logf_v2_cases [OF assms(1)] mlog_Log_def mlog_Logf_def
        emitted_Println [OF assms(2)])
qed

theorem threshold_filter_witness:
  "mu (lg (mlog world0)) = Unlocked \<and> wired (mlog world0) 0 \<and>
   LogLevelDebug <s logLevel (lg (mlog world0)) \<and>
   mlog_Log concat LogLevelDebug [''x''] (mlog world0) = Returns () (mlog world0) \<and>
   logLevel (lg (mlog world0)) \<le>s LogLevelWarning \<and>
   buf (writers (after (mlog_Log concat LogLevelWarning [''x''] (mlog world0))) 0)
     = ''[2024-03-09 07:05:00] [WARNING] x'' @ newline"
proof -
  let ?w = "mlog world0"
  note h = mlog_world0_facts(1,2)
  have lo: "LogLevelDebug <s logLevel (lg ?w)"
    by (simp add: mlog_world0_facts LogLevelDebug_def LogLevelInfo_def word_sless_alt)
  have hi: "logLevel (lg ?w) \<le>s LogLevelWarning"
    by (simp add: mlog_world0_facts LogLevelWarning_def LogLevelInfo_def word_sle_eq)
  have line: "formatMessage concat LogLevelWarning [''x''] ?w = ''[2024-03-09 07:05:00] [WARNING] x''"
    by (simp add: formatMessage_def bracketed_def level_names mlog_world0_facts)
  have fits: "err (writers ?w 0) = None \<and>
      length (''[2024-03-09 07:05:00] [WARNING] x'' @ newline)
        \<le> defaultBufSize - length (buf (writers ?w 0))"
    by (simp add: mlog_world0_facts defaultBufSize_def newline_def)
  from threshold_filter [OF h, of LogLevelDebug concat "[''x'']"] lo
  have 1: "mlog_Log concat LogLevelDebug [''x''] ?w = Returns () ?w" by simp
  from threshold_filter [OF h, of LogLevelWarning concat "[''x'']"] hi line
  have "emitted ?w 0 (''[2024-03-09 07:05:00] [WARNING] x'' @ newline)
          (mlog_Log concat LogLevelWarning [''x''] ?w)" by simp
  with fits have 2: "buf (writers (after (mlog_Log concat LogLevelWarning [''x''] ?w)) 0)
     = ''[2024-03-09 07:05:00] [WARNING] x'' @ newline"
    by (simp add: emitted_def mlog_world0_facts)
  from h lo hi 1 2 show ?thesis by simp
qed

subsection \<open>C6: the format of an emitted line\<close>

text \<open>
  C6 as the code has it. The formatter yields \<^verbatim>\<open>[timestamp] [LEVELNAME] message\<close> and
  appends nothing after the message; an accepted write hands exactly that text followed
  by one newline to the sink. For a calendar time with a four-digit year the timestamp
  is \<^verbatim>\<open>YYYY-MM-DD HH:MM:SS\<close> in decimal digits. When the rendered message holds no
  newline, the emitted text holds exactly one, its last byte: it is one line. For
  \<^verbatim>\<open>Logf\<close> the message is the template rendered with its operands, so
  \<^verbatim>\<open>Infof("%s has %d items", "cart", 3)\<close> emits a line ending in
  \<^verbatim>\<open>[INFO] cart has 3 items\<close>.
\<close>

theorem line_format:
  assumes "mu (lg w) = Unlocked" and "wired w a" and "logLevel (lg w) \<le>s lvl"
  shows "formatMessage Sprint lvl args w
           = ''['' @ Time_Format (clock w) @ ''] ['' @ LogLevel_String lvl @ ''] '' @ Sprint args \<and>
         formatMessagef Sprintf format lvl args w
           = ''['' @ Time_Format (clock w) @ ''] ['' @ LogLevel_String lvl @ ''] ''
               @ Sprintf format args \<and>
         emitted w a (''['' @ Time_Format (clock w) @ ''] ['' @ LogLevel_String lvl @ ''] ''
                        @ Sprint args @ [CHR 0x0A]) (Log_v1 Sprint lvl args w) \<and>
         emitted w a (''['' @ Time_Format (clock w) @ ''] ['' @ LogLevel_String lvl @ ''] ''
                        @ Sprint args @ [CHR 0x0A]) (Log_v2 Sprint lvl args w) \<and>
         emitted w a (''['' @ Time_Format (clock w) @ ''] ['' @ LogLevel_String lvl @ ''] ''
                        @ Sprintf format args @ [CHR 0x0A]) (Logf_v1 Sprintf lvl format args w) \<and>
         emitted w a (''['' @ Time_Format (clock w) @ ''] ['' @ LogLevel_String lvl @ ''] ''
                        @ Sprintf format args @ [CHR 0x0A]) (Logf_v2 Sprintf format lvl args w) \<and>
         (calendar (clock w) \<longrightarrow>
            Time_Format (clock w) =
              [digit_char (t_year (clock w) div 1000), digit_char (t_year (clock w) div 100 mod 10),
               digit_char (t_year (clock w) div 10 mod 10), digit_char (t_year (clock w) mod 10),
               CHR ''-'',
               digit_char (t_month (clock w) div 10), digit_char (t_month (clock w) mod 10),
               CHR ''-'',
               digit_char (t_day (clock w) div 10), digit_char (t_day (clock w) mod 10),
               CHR '' '',
               digit_char (t_hour (clock w) div 10), digit_char (t_hour (clock w) mod 10),
               CHR '':'',
               digit_char (t_minute (clock w) div 10), digit_char (t_minute (clock w) mod 10),
               CHR '':'',
               digit_char (t_second (clock w) div 10), digit_char (t_second (clock w) mod 10)]) \<and>
         digit_char d \<in> set ''0123456789'' \<and>
         (CHR 0x0A \<notin> set (Sprint args) \<longrightarrow>
            count_list (formatMessage Sprint lvl args w @ newline) (CHR 0x0A) = 1) \<and>
         (CHR 0x0A \<notin> set (Sprintf format args) \<longrightarrow>
            count_list (formatMessagef Sprintf format lvl args w @ newline) (CHR 0x0A) = 1) \<and>
         (agrees_plain Sprintf' \<and> lvl = LogLevelInfo \<longrightarrow>
            emitted w a (''['' @ Time_Format (clock w) @ ''] [INFO] cart has 3 items'' @ [CHR 0x0A])
              (Infof_v1 Sprintf' ''%s has %d items'' [GoString ''cart'', GoInt 3] w) \<and>
            emitted w a (''['' @ Time_Format (clock w) @ ''] [INFO] cart has 3 items'' @ [CHR 0x0A])
              (Infof_v2 Sprintf' ''%s has %d items'' [GoString ''cart'', GoInt 3] w) \<and>
            emitted w a (''['' @ Time_Format (clock w) @ ''] [INFO] cart has 3 items'' @ [CHR 0x0A])
              (mlog_Infof Sprintf' ''%s has %d items'' [GoString ''cart'', GoInt 3] w))"
proof -
  have fm: "formatMessage Sprint lvl args w @ newline
      = ''['' @ Time_Format (clock w) @ ''] ['' @ LogLevel_String lvl @ ''] '' @ Sprint args @ [CHR 0x0A]"
    by (simp add: formatMessage_def bracketed_unfold)
  have fmf: "\<And>S f (xs :: 'c list). formatMessagef S f lvl xs w @ newline
      = ''['' @ Time_Format (clock w) @ ''] ['' @ LogLevel_String lvl @ ''] '' @ S f xs @ [CHR 0x0A]"
    by (simp add: formatMessagef_def bracketed_unfold)
  have fmf': "\<And>S f (xs :: go_value list). formatMessagef S f lvl xs w @ newline
      = ''['' @ Time_Format (clock w) @ ''] ['' @ LogLevel_String lvl @ ''] '' @ S f xs @ [CHR 0x0A]"
    by (simp add: formatMessagef_def bracketed_unfold)
  note em = emitted_accepted [OF assms]
  have 1: "formatMessage Sprint lvl args w
           = ''['' @ Time_Format (clock w) @ ''] ['' @ LogLevel_String lvl @ ''] '' @ Sprint args"
    by (simp add: formatMessage_def bracketed_def)
  have 2: "formatMessagef Sprintf format lvl args w
           = ''['' @ Time_Format (clock w) @ ''] ['' @ LogLevel_String lvl @ ''] ''
               @ Sprintf format args"
    by (simp add: formatMessagef_def bracketed_def)
  have 3: "emitted w a (''['' @ Time_Format (clock w) @ ''] ['' @ LogLevel_String lvl @ ''] ''
                        @ Sprint args @ [CHR 0x0A]) (Log_v1 Sprint lvl args w)"
    using em(1) [of Sprint args] by (simp only: fm)
  have 4: "emitted w a (''['' @ Time_Format (clock w) @ ''] ['' @ LogLevel_String lvl @ ''] ''
                        @ Sprint args @ [CHR 0x0A]) (Log_v2 Sprint lvl args w)"
    using em(2) [of Sprint args] by (simp only: fm)
  have 5: "emitted w a (''['' @ Time_Format (clock w) @ ''] ['' @ LogLevel_String lvl @ ''] ''
                        @ Sprintf format args @ [CHR 0x0A]) (Logf_v1 Sprintf lvl format args w)"
    using em(3) [of Sprintf format args] by (simp only: fmf)
  have 6: "emitted w a (''['' @ Time_Format (clock w) @ ''] ['' @ LogLevel_String lvl @ ''] ''
                        @ Sprintf format args @ [CHR 0x0A]) (Logf_v2 Sprintf format lvl args w)"
    using em(4) [of Sprintf format args] by (simp only: fmf)
  have 7: "CHR 0x0A \<notin> set (Sprint args) \<longrightarrow>
            count_list (formatMessage Sprint lvl args w @ newline) (CHR 0x0A) = 1"
    unfolding formatMessage_def Let_def using one_terminator by blast
  have 8: "CHR 0x0A \<notin> set (Sprintf format args) \<longrightarrow>
            count_list (formatMessagef Sprintf format lvl args w @ newline) (CHR 0x0A) = 1"
    unfolding formatMessagef_def Let_def using one_terminator by blast
  have 9: "emitted w a (''['' @ Time_Format (clock w) @ ''] [INFO] cart has 3 items'' @ [CHR 0x0A])
              (Infof_v1 Sprintf' ''%s has %d items'' [GoString ''cart'', GoInt 3] w) \<and>
            emitted w a (''['' @ Time_Format (clock w) @ ''] [INFO] cart has 3 items'' @ [CHR 0x0A])
              (Infof_v2 Sprintf' ''%s has %d items'' [GoString ''cart'', GoInt 3] w) \<and>
            emitted w a (''['' @ Time_Format (clock w) @ ''] [INFO] cart has 3 items'' @ [CHR 0x0A])
              (mlog_Infof Sprintf' ''%s has %d items'' [GoString ''cart'', GoInt 3] w)"
    if ag: "agrees_plain Sprintf'" and info: "lvl = LogLevelInfo"
  proof -
    from ag Sprintf_plain_cart
    have r: "Sprintf' ''%s has %d items'' [GoString ''cart'', GoInt 3] = ''cart has 3 items''"
      unfolding agrees_plain_def by blast
    have line: "formatMessagef Sprintf' ''%s has %d items'' LogLevelInfo
          [GoString ''cart'', GoInt 3] w @ newline
        = ''['' @ Time_Format (clock w) @ ''] [INFO] cart has 3 items'' @ [CHR 0x0A]"
      by (simp add: formatMessagef_def bracketed_unfold r level_names)
    from em(3) [of Sprintf' "''%s has %d items''" "[GoString ''cart'', GoInt 3]"]
      em(4) [of Sprintf' "''%s has %d items''" "[GoString ''cart'', GoInt 3]"]
    show ?thesis
      unfolding info line
      by (simp add: Infof_v1_def Infof_v2_def mlog_Infof_def)
  qed
  from 1 2 3 4 5 6 7 8 9 Time_Format_shape [of "clock w"] digit_char_is_digit [of d]
  show ?thesis by blast
qed

theorem line_format_witness:
  "mu (lg (mlog world0)) = Unlocked \<and> wired (mlog world0) 0 \<and>
   logLevel (lg (mlog world0)) \<le>s LogLevelInfo \<and> calendar (clock (mlog world0)) \<and>
   agrees_plain (\<lambda>format args. case Sprintf_plain format args of Some m \<Rightarrow> m | None \<Rightarrow> []) \<and>
   CHR 0x0A \<notin> set (concat [''ready'']) \<and>
   formatMessage concat LogLevelInfo [''ready''] (mlog world0) = ''[2024-03-09 07:05:00] [INFO] ready'' \<and>
   count_list (formatMessage concat LogLevelInfo [''ready''] (mlog world0) @ newline) (CHR 0x0A) = 1 \<and>
   buf (writers (after (mlog_Infof
          (\<lambda>format args. case Sprintf_plain format args of Some m \<Rightarrow> m | None \<Rightarrow> [])
          ''%s has %d items'' [GoString ''cart'', GoInt 3] (mlog world0))) 0)
     = ''[2024-03-09 07:05:00] [INFO] cart has 3 items'' @ [CHR 0x0A]"
proof -
  let ?w = "mlog world0"
  let ?S = "\<lambda>format args. case Sprintf_plain format args of Some m \<Rightarrow> m | None \<Rightarrow> []"
  let ?r = "mlog_Infof ?S ''%s has %d items'' [GoString ''cart'', GoInt 3] ?w"
  note h = mlog_world0_facts(1,2)
  have h3: "logLevel (lg ?w) \<le>s LogLevelInfo" by (simp add: mlog_world0_facts)
  have cal: "calendar (clock ?w)" by (simp add: mlog_world0_facts calendar_def) (simp add: world0_def)
  have ag: "agrees_plain ?S" by (simp add: agrees_plain_def)
  have nn: "CHR 0x0A \<notin> set (concat [''ready''])" by simp
  note inst = line_format [OF h h3, where Sprint = concat and args = "[''ready'']"
      and Sprintf = "\<lambda>f xs. f @ concat xs" and format = "[]" and d = 0 and Sprintf' = ?S]
  from inst have fm: "formatMessage concat LogLevelInfo [''ready''] ?w
      = ''['' @ Time_Format (clock ?w) @ ''] ['' @ LogLevel_String LogLevelInfo @ ''] '' @ concat [''ready'']"
    by blast
  from inst nn have cnt: "count_list (formatMessage concat LogLevelInfo [''ready''] ?w @ newline) (CHR 0x0A) = 1"
    by blast
  from inst ag have em: "emitted ?w 0 (''['' @ Time_Format (clock ?w) @ ''] [INFO] cart has 3 items'' @ [CHR 0x0A]) ?r"
    by blast
  have fits: "err (writers ?w 0) = None \<and>
      length (''['' @ Time_Format (clock ?w) @ ''] [INFO] cart has 3 items'' @ [CHR 0x0A])
        \<le> defaultBufSize - length (buf (writers ?w 0))"
    by (simp add: mlog_world0_facts defaultBufSize_def)
  from em fits have "buf (writers (after ?r) 0)
      = buf (writers ?w 0) @ ''['' @ Time_Format (clock ?w) @ ''] [INFO] cart has 3 items'' @ [CHR 0x0A]"
    unfolding emitted_def by blast
  then have b: "buf (writers (after ?r) 0) = ''[2024-03-09 07:05:00] [INFO] cart has 3 items'' @ [CHR 0x0A]"
    by (simp add: mlog_world0_facts)
  from fm have fm': "formatMessage concat LogLevelInfo [''ready''] ?w = ''[2024-03-09 07:05:00] [INFO] ready''"
    by (simp add: mlog_world0_facts level_names)
  from h h3 cal ag nn fm' cnt b show ?thesis by blast
qed

text \<open>
  C6 as stated fails for a message that holds a newline: the formatter copies the
  message as it is, so the emitted text spans two lines.
\<close>

theorem message_with_newline_spans_two_lines:
  "mlog_Info concat [''a'' @ newline @ ''b''] (mlog world0)
     = Returns () (after (mlog_Info concat [''a'' @ newline @ ''b''] (mlog world0))) \<and>
   buf (writers (after (mlog_Info concat [''a'' @ newline @ ''b''] (mlog world0))) 0)
     = ''[2024-03-09 07:05:00] [INFO] a'' @ newline @ ''b'' @ newline \<and>
   count_list (buf (writers (after (mlog_Info concat [''a'' @ newline @ ''b''] (mlog world0))) 0))
     (CHR 0x0A) = 2"
  apply (simp add: mlog_world0)
  apply (simp add: eval_defs world0_def Time_Format_def appendInt_def digits.simps digit_char_def)
  done

subsection \<open>C7: leveled writes have no failure mode\<close>

text \<open>
  C7: for every level other than Fatal and every argument list, \<^verbatim>\<open>Log\<close>, \<^verbatim>\<open>Logf\<close> and
  the convenience methods of both variants and of package mlog return to the caller
  whatever the environment does: their result carries no error, an error of the write
  is dropped, and nothing but writes to the sink happens on the way.
\<close>

theorem leveled_writes_return:
  assumes "mu (lg w) = Unlocked" and "lvl \<noteq> LogLevelFatal"
  shows "returns_after_writes w (Log_v1 Sprint lvl args w) \<and>
         returns_after_writes w (Logf_v1 Sprintf lvl format args w) \<and>
         returns_after_writes w (Log_v2 Sprint lvl args w) \<and>
         returns_after_writes w (Logf_v2 Sprintf format lvl args w) \<and>
         returns_after_writes w (mlog_Log Sprint lvl args w) \<and>
         returns_after_writes w (mlog_Logf Sprintf format lvl args w) \<and>
         returns_after_writes w (Debug_v1 Sprint args w) \<and>
         returns_after_writes w (Debugf_v1 Sprintf format args w) \<and>
         returns_after_writes w (Info_v1 Sprint args w) \<and>
         returns_after_writes w (Infof_v1 Sprintf format args w) \<and>
         returns_after_writes w (Warn_v1 Sprint args w) \<and>
         returns_after_writes w (Warnf_v1 Sprintf format args w) \<and>
         returns_after_writes w (Error_v1 Sprint args w) \<and>
         returns_after_writes w (Errorf_v1 Sprintf format args w) \<and>
         returns_after_writes w (Debug_v2 Sprint args w) \<and>
         returns_after_writes w (Debugf_v2 Sprintf format args w) \<and>
         returns_after_writes w (Info_v2 Sprint args w) \<and>
         returns_after_writes w (Infof_v2 Sprintf format args w) \<and>
         returns_after_writes w (Warn_v2 Sprint args w) \<and>
         returns_after_writes w (Warnf_v2 Sprintf format args w) \<and>
         returns_after_writes w (Error_v2 Sprint args w) \<and>
         returns_after_writes w (Errorf_v2 Sprintf format args w) \<and>
         returns_after_writes w (mlog_Debug Sprint args w) \<and>
         returns_after_writes w (mlog_Debugf Sprintf format args w) \<and>
         returns_after_writes w (mlog_Info Sprint args w) \<and>
         returns_after_writes w (mlog_Infof Sprintf format args w) \<and>
         returns_after_writes w (mlog_Warn Sprint args w) \<and>
         returns_after_writes w (mlog_Warnf Sprintf format args w) \<and>
         returns_after_writes w (mlog_Error Sprint args w) \<and>
         returns_after_writes w (mlog_Errorf Sprintf format args w)"
  using assms
  by (simp add: Log_v1_returns Log_v2_returns Logf_v1_returns Logf_v2_returns
      named_levels_not_fatal mlog_Log_def mlog_Logf_def
      Debug_v1_def Debugf_v1_def Info_v1_def Infof_v1_def Warn_v1_def Warnf_v1_def
      Error_v1_def Errorf_v1_def
      Debug_v2_def Debugf_v2_def Info_v2_def Infof_v2_def Warn_v2_def Warnf_v2_def
      Error_v2_def Errorf_v2_def
      mlog_Debug_def mlog_Debugf_def mlog_Info_def mlog_Infof_def mlog_Warn_def mlog_Warnf_def
      mlog_Error_def mlog_Errorf_def)

theorem leveled_writes_return_witness:
  "mu (lg world_failed) = Unlocked \<and> LogLevelError \<noteq> LogLevelFatal \<and>
   err (writers world_failed 0) = Some ErrWrite \<and>
   returns_after_writes world_failed (mlog_Error concat [''disk gone''] world_failed) \<and>
   returns_after_writes world_failed (Log_v1 concat LogLevelError [''disk gone''] world_failed)"
proof -
  have h1: "mu (lg world_failed) = Unlocked"
    by (simp add: world_failed_def set_writer_def mlog_world0)
  have h2: "LogLevelError \<noteq> LogLevelFatal" by (simp add: LogLevelError_def LogLevelFatal_def)
  have h3: "err (writers world_failed 0) = Some ErrWrite"
    by (simp add: world_failed_def set_writer_def)
  from leveled_writes_return [OF h1 h2, of concat "[''disk gone'']"] h1 h2 h3 show ?thesis
    by simp
qed

subsection \<open>C8: a freshly constructed logger\<close>

text \<open>
  C8: \<^verbatim>\<open>New\<close>, in both variants, and with it the package-level instance of mlog, yields
  a logger with threshold Info, a buffered writer wrapping the console, and no backing
  file.
\<close>

theorem New_defaults:
  "default_logger w (New_v1 w) \<and> default_logger w (New_v2 w) \<and> default_logger w (mlog w)"
  by (simp add: default_logger_def New_v1_def New_v2_def mlog_def bufio_NewWriter_def
      set_writer_def log_New_def wired_def)

subsection \<open>C9: rendering a level\<close>

text \<open>
  C9: \<^verbatim>\<open>LogLevel.String\<close> is total. Each of the five declared levels renders as its
  fixed name, and every other 8-bit value, in particular every negative one and every
  one above Fatal, renders as \<^verbatim>\<open>UNKNOWN\<close>.
\<close>

theorem LogLevel_String_total:
  "LogLevel_String LogLevelDebug = ''DEBUG'' \<and>
   LogLevel_String LogLevelInfo = ''INFO'' \<and>
   LogLevel_String LogLevelWarning = ''WARNING'' \<and>
   LogLevel_String LogLevelError = ''ERROR'' \<and>
   LogLevel_String LogLevelFatal = ''FATAL'' \<and>
   (l \<notin> {LogLevelDebug, LogLevelInfo, LogLevelWarning, LogLevelError, LogLevelFatal}
      \<longrightarrow> LogLevel_String l = ''UNKNOWN'') \<and>
   (sint l < 0 \<or> 4 < sint l \<longrightarrow> LogLevel_String l = ''UNKNOWN'')"
  using level_outside [of l]
  by (simp add: LogLevel_String_def LogLevelDebug_def LogLevelInfo_def LogLevelWarning_def
      LogLevelError_def LogLevelFatal_def)

theorem LogLevel_String_total_witness:
  "(5 :: LogLevel) \<notin> {LogLevelDebug, LogLevelInfo, LogLevelWarning, LogLevelError, LogLevelFatal} \<and>
   LogLevel_String 5 = ''UNKNOWN'' \<and>
   sint (- 1 :: LogLevel) < 0 \<and> LogLevel_String (- 1) = ''UNKNOWN'' \<and>
   4 < sint (127 :: LogLevel) \<and> LogLevel_String 127 = ''UNKNOWN'' \<and>
   sint (- 128 :: LogLevel) < 0 \<and> LogLevel_String (- 128) = ''UNKNOWN''"
  using LogLevel_String_total [of 5] LogLevel_String_total [of "- 1"] LogLevel_String_total [of 127]
     LogLevel_String_total [of "- 128"]
  by (simp add: LogLevelDebug_def LogLevelInfo_def LogLevelWarning_def
      LogLevelError_def LogLevelFatal_def)

subsection \<open>C10: only Fatal leaves the normal path; SetLogLevel changes the threshold only\<close>

text \<open>
  C10: a write at any level other than the constant Fatal that passes the threshold,
  levels above Fatal included, appends its line to the buffered sink and returns with
  the mutex released: the logger's fields and the file handles are as before, no file
  is synced or closed, the process does not exit, and a line that fits the buffer
  causes no system call at all. \<^verbatim>\<open>SetLogLevel\<close> returns the same world with only the
  threshold replaced.
\<close>

theorem only_Fatal_terminates:
  assumes "mu (lg w) = Unlocked" and "wired w a"
    and "\<not> lvl <s logLevel (lg w)" and "lvl \<noteq> LogLevelFatal"
  shows "returns_with_line w a (formatMessage Sprint lvl args w @ newline)
           (Log_v1 Sprint lvl args w) \<and>
         returns_with_line w a (formatMessagef Sprintf format lvl args w @ newline)
           (Logf_v1 Sprintf lvl format args w) \<and>
         returns_with_line w a (formatMessage Sprint lvl args w @ newline)
           (Log_v2 Sprint lvl args w) \<and>
         returns_with_line w a (formatMessagef Sprintf format lvl args w @ newline)
           (Logf_v2 Sprintf format lvl args w) \<and>
         SetLogLevel l w = Returns () (w\<lparr>lg := (lg w)\<lparr>logLevel := l\<rparr>\<rparr>) \<and>
         mlog_SetLogLevel l w = Returns () (w\<lparr>lg := (lg w)\<lparr>logLevel := l\<rparr>\<rparr>)"
  using assms(3,4)
  by (simp add: Log_v1_cases [OF assms(1)] Log_v2_cases [OF assms(1)]
      Logf_v1_cases [OF assms(1)] Logf_v2_cases [OF assms(1)]
      returns_with_line_Println [OF assms(1,2)] SetLogLevel_unlocked [OF assms(1)]
      mlog_SetLogLevel_def)

theorem only_Fatal_terminates_witness:
  "mu (lg (mlog world0)) = Unlocked \<and> wired (mlog world0) 0 \<and>
   \<not> (5 :: LogLevel) <s logLevel (lg (mlog world0)) \<and> (5 :: LogLevel) \<noteq> LogLevelFatal \<and>
   LogLevelFatal <s (5 :: LogLevel) \<and>
   Log_v2 concat 5 [''x''] (mlog world0)
     = Returns () (after (Log_v2 concat 5 [''x''] (mlog world0))) \<and>
   lg (after (Log_v2 concat 5 [''x''] (mlog world0))) = lg (mlog world0) \<and>
   files (after (Log_v2 concat 5 [''x''] (mlog world0))) = files (mlog world0) \<and>
   trace (after (Log_v2 concat 5 [''x''] (mlog world0))) = [] \<and>
   buf (writers (after (Log_v2 concat 5 [''x''] (mlog world0))) 0)
     = ''[2024-03-09 07:05:00] [UNKNOWN] x'' @ newline \<and>
   SetLogLevel 127 (mlog world0)
     = Returns () ((mlog world0)\<lparr>lg := (lg (mlog world0))\<lparr>logLevel := 127\<rparr>\<rparr>)"
proof -
  let ?w = "mlog world0"
  let ?r = "Log_v2 concat 5 [''x''] ?w"
  note h = mlog_world0_facts(1,2)
  have h3: "\<not> (5 :: LogLevel) <s logLevel (lg ?w)"
    by (simp add: mlog_world0_facts LogLevelInfo_def word_sless_alt)
  have h4: "(5 :: LogLevel) \<noteq> LogLevelFatal" by (simp add: LogLevelFatal_def)
  have h5: "LogLevelFatal <s (5 :: LogLevel)" by (simp add: LogLevelFatal_def)
  have line: "formatMessage concat 5 [''x''] ?w = ''[2024-03-09 07:05:00] [UNKNOWN] x''"
    by (simp add: formatMessage_def bracketed_def mlog_world0_facts LogLevel_String_def
        LogLevelDebug_def LogLevelInfo_def LogLevelWarning_def LogLevelError_def LogLevelFatal_def)
  have fits: "err (writers ?w 0) = None \<and>
      length (''[2024-03-09 07:05:00] [UNKNOWN] x'' @ newline)
        \<le> defaultBufSize - length (buf (writers ?w 0))"
    by (simp add: mlog_world0_facts defaultBufSize_def newline_def)
  note inst = only_Fatal_terminates [OF h h3 h4, of concat "[''x'']" _ _ 127]
  from inst line have "returns_with_line ?w 0 (''[2024-03-09 07:05:00] [UNKNOWN] x'' @ newline) ?r"
    by simp
  with fits have "?r = Returns () (after ?r) \<and> lg (after ?r) = lg ?w \<and>
      files (after ?r) = files ?w \<and> trace (after ?r) = trace ?w \<and>
      buf (writers (after ?r) 0) = buf (writers ?w 0) @ ''[2024-03-09 07:05:00] [UNKNOWN] x'' @ newline"
    by (cases ?r) (simp_all add: returns_with_line_def io_only_def)
  with inst h h3 h4 h5 show ?thesis by (simp add: mlog_world0_facts)
qed

end
